theory Spec2Isabelle
  imports Complex_Main
begin

section \<open>get-open-port: the port manager of \<open>src/index.ts\<close>\<close>

text \<open>
  The development embeds \<open>src/index.ts\<close>. Port numbers and time stamps are the
  integers the program handles (JavaScript numbers that hold integers, which doubles
  represent exactly in the range of ports and millisecond clocks). Everything the program
  takes from outside is a field of the record \<open>world\<close>: the interfaces
  \<open>os.networkInterfaces()\<close> lists, what happens to each listening socket, and the clock.
  A promise that never settles is the value \<open>None\<close>.
\<close>

subsection \<open>Errors\<close>

text \<open>
  A JavaScript error object: its class (what \<open>instanceof\<close> tests), and the
  properties \<open>name\<close>, \<open>message\<close> and \<open>code\<close>. \<open>code\<close> is absent on a plain
  \<open>Error\<close>; the socket layer sets it (\<open>EADDRINUSE\<close>, \<open>EACCES\<close>, ...).
\<close>

datatype error_class = ErrorC | TypeErrorC | RangeErrorC | LockedPortErrorC

record js_error =
  cls :: error_class
  name :: string
  message :: string
  code :: "string option"

text \<open>Decimal rendering of a number in a template string.\<close>

definition digit_char :: "nat \<Rightarrow> char" where
  "digit_char d = ''0123456789'' ! d"

fun show_nat :: "nat \<Rightarrow> string" where
  "show_nat n = (if n < 10 then [digit_char n] else show_nat (n div 10) @ [digit_char (n mod 10)])"

declare show_nat.simps [simp del]

definition show_int :: "int \<Rightarrow> string" where
  "show_int i = (if i < 0 then CHR ''-'' # show_nat (nat (- i)) else show_nat (nat i))"

text \<open>\<open>new Error(message)\<close>, \<open>new TypeError(message)\<close>, \<open>new RangeError(message)\<close>.\<close>

definition new_Error :: "string \<Rightarrow> js_error" where
  "new_Error msg = \<lparr>cls = ErrorC, name = ''Error'', message = msg, code = None\<rparr>"

definition new_TypeError :: "string \<Rightarrow> js_error" where
  "new_TypeError msg = \<lparr>cls = TypeErrorC, name = ''TypeError'', message = msg, code = None\<rparr>"

definition new_RangeError :: "string \<Rightarrow> js_error" where
  "new_RangeError msg = \<lparr>cls = RangeErrorC, name = ''RangeError'', message = msg, code = None\<rparr>"

text \<open>
  The constructor of \<open>class LockedPortError extends Error\<close> (lines 7 to 16): it passes
  the message to \<open>super\<close> and sets \<open>name\<close> and \<open>code\<close>. The class declares the two
  fields \<open>code\<close> and \<open>name\<close> and no other.
\<close>

definition new_LockedPortError :: "int \<Rightarrow> js_error" where
  "new_LockedPortError port =
     \<lparr>cls = LockedPortErrorC, name = ''LockedPortError'',
      message = ''Port '' @ show_int port @ '' is locked'', code = Some ''EPORTLOCKED''\<rparr>"

subsection \<open>The port manager\<close>

text \<open>
  The handle \<open>setInterval\<close> returns: the period of the timer and whether it still keeps
  the process alive (\<open>unref\<close> clears that). Its callback is always
  \<open>cleanupExpiredPorts\<close>.
\<close>

record interval_timer =
  delay :: int
  has_ref :: bool

record portManager =
  locked :: "int \<rightharpoonup> int"
  cleanupInterval :: int
  minPort :: int
  maxPort :: int
  cleanupTimer :: "interval_timer option"

definition portManager_init :: portManager where
  "portManager_init =
     \<lparr>locked = Map.empty, cleanupInterval = 15000, minPort = 1024, maxPort = 65535,
      cleanupTimer = None\<rparr>"

text \<open>\<open>Map.prototype.has\<close>.\<close>

definition has :: "('k \<rightharpoonup> 'v) \<Rightarrow> 'k \<Rightarrow> bool" where
  "has m k = (m k \<noteq> None)"

text \<open>
  \<open>[...new Set(xs)]\<close>: a JavaScript \<open>Set\<close> keeps insertion order, so spreading it
  keeps the first occurrence of every element.
\<close>

definition Set_add :: "'a list \<Rightarrow> 'a \<Rightarrow> 'a list" where
  "Set_add acc x = (if x \<in> set acc then acc else acc @ [x])"

definition new_Set :: "'a list \<Rightarrow> 'a list" where
  "new_Set xs = foldl Set_add [] xs"

text \<open>
  \<open>createPorts\<close> (lines 42 to 45). \<open>getOpenPort\<close> only ever passes an array or
  \<open>undefined\<close>, so the non-iterable branch is not reachable from it.
\<close>

definition createPorts :: "int list option \<Rightarrow> int list" where
  "createPorts ports = (case ports of None \<Rightarrow> [0] | Some ps \<Rightarrow> new_Set ps)"

text \<open>
  \<open>cleanupExpiredPorts\<close> (lines 50 to 57), with the value \<open>Date.now()\<close> returned.
\<close>

definition cleanupExpiredPorts :: "int \<Rightarrow> portManager \<Rightarrow> portManager" where
  "cleanupExpiredPorts now pm =
     pm\<lparr>locked := (\<lambda>port. case locked pm port of
                       None \<Rightarrow> None
                     | Some timestamp \<Rightarrow>
                         if now - timestamp \<ge> cleanupInterval pm then None else Some timestamp)\<rparr>"

text \<open>\<open>clearLockedPorts\<close> (lines 261 to 267).\<close>

definition clearLockedPorts :: "portManager \<Rightarrow> portManager" where
  "clearLockedPorts pm =
     (let pm = pm\<lparr>locked := Map.empty\<rparr>
      in if cleanupTimer pm \<noteq> None then pm\<lparr>cleanupTimer := None\<rparr> else pm)"

subsection \<open>The world outside\<close>

text \<open>
  One entry of \<open>os.networkInterfaces()\<close>; \<open>Object.values\<close> of the result is a list of
  lists of entries, any of which may be \<open>undefined\<close> (the code guards with \<open>iface?.\<close>).
\<close>

record net_config =
  address :: string
  internal :: bool

text \<open>
  What becomes of one probe, as \<open>checkPortAvailability\<close> sees it. Exactly one of its
  three callbacks runs first: the \<open>listen\<close> callback, with the value \<open>server.address()\<close>
  then has (\<open>Some p\<close> for an address object with port \<open>p\<close>, \<open>None\<close> for \<open>null\<close> or a
  pipe name); the \<open>error\<close> listener, with the error; or the timer. The number is the
  time at which the promise settles, after the socket is closed; it orders the probes of
  one fan-out.
\<close>

datatype socket_event =
  Listening nat "int option"
| SocketError nat js_error
| TimerFired nat

text \<open>
  \<open>net_listen w i host port ms\<close> is the fate of the \<open>i\<close>-th socket opened (counting from
  0), asked to listen on \<open>host\<close> and \<open>port\<close> while a timer of \<open>ms\<close> milliseconds runs.
  \<open>Date_now\<close> is the clock value read when a port is reserved.
\<close>

record world =
  os_networkInterfaces :: "net_config list option list"
  net_listen :: "nat \<Rightarrow> string option \<Rightarrow> int \<Rightarrow> int \<Rightarrow> socket_event"
  Date_now :: int

text \<open>\<open>net.ListenOptions & { timeout?: number }\<close>, the fields the program uses.\<close>

record listen_options =
  port :: int
  host :: "string option"
  timeout :: "int option"

text \<open>The sockets opened so far, in order: host and port of each \<open>listen\<close>.\<close>

type_synonym bind_log = "(string option \<times> int) list"

text \<open>
  A promise's fate: \<open>None\<close> when it never settles, else the time it settles at and
  either the rejection (\<open>Inl\<close>) or the value (\<open>Inr\<close>).
\<close>

type_synonym 'a settled = "(nat \<times> (js_error + 'a)) option"

text \<open>\<open>createHosts\<close> (lines 63 to 74): a \<open>Set\<close>, in insertion order.\<close>

definition createHosts :: "net_config list option list \<Rightarrow> string option list" where
  "createHosts interfaces =
     foldl (\<lambda>acc iface.
              case iface of
                None \<Rightarrow> acc
              | Some configs \<Rightarrow>
                  foldl (\<lambda>acc config.
                           if \<not> internal config then Set_add acc (Some (address config)) else acc)
                        acc configs)
           (new_Set [None, Some ''0.0.0.0'']) interfaces"

text \<open>\<open>options.timeout || 1000\<close>: \<open>undefined\<close> and \<open>0\<close> are falsy.\<close>

definition timeoutMs :: "listen_options \<Rightarrow> int" where
  "timeoutMs options =
     (case timeout options of None \<Rightarrow> 1000 | Some t \<Rightarrow> if t = 0 then 1000 else t)"

text \<open>
  \<open>checkPortAvailability\<close> (lines 81 to 108). When the socket listens but
  \<open>server.address()\<close> is not an object, the timer is already cleared and neither
  \<open>resolve\<close> nor \<open>reject\<close> is ever called.
\<close>

definition checkPortAvailability ::
  "world \<Rightarrow> bind_log \<Rightarrow> listen_options \<Rightarrow> int settled \<times> bind_log" where
  "checkPortAvailability w lg options =
     (case net_listen w (length lg) (host options) (port options) (timeoutMs options) of
        TimerFired t \<Rightarrow>
          Some (t, Inl (new_Error (''Port check timed out after ''
                                     @ show_int (timeoutMs options) @ ''ms'')))
      | SocketError t err \<Rightarrow> Some (t, Inl err)
      | Listening t addr \<Rightarrow>
          (case addr of Some p \<Rightarrow> Some (t, Inr p) | None \<Rightarrow> None),
      lg @ [(host options, port options)])"

text \<open>\<open>Array.prototype.includes\<close> on a list of codes, for an \<open>error.code\<close> that may be absent.\<close>

definition Array_includes :: "string list \<Rightarrow> string option \<Rightarrow> bool" where
  "Array_includes xs c = (case c of None \<Rightarrow> False | Some s \<Rightarrow> s \<in> set xs)"

text \<open>
  The function mapped over the hosts (lines 125 to 134): a rejection with code
  \<open>EADDRNOTAVAIL\<close> or \<open>EINVAL\<close> becomes the value \<open>null\<close> (\<open>None\<close>), any other
  is thrown again.
\<close>

definition host_probe ::
  "world \<Rightarrow> bind_log \<Rightarrow> listen_options \<Rightarrow> string option \<Rightarrow> int option settled \<times> bind_log" where
  "host_probe w lg options h =
     (case checkPortAvailability w lg (options\<lparr>host := h\<rparr>) of
        (None, lg') \<Rightarrow> (None, lg')
      | (Some (t, Inr p), lg') \<Rightarrow> (Some (t, Inr (Some p)), lg')
      | (Some (t, Inl error), lg') \<Rightarrow>
          if \<not> Array_includes [''EADDRNOTAVAIL'', ''EINVAL''] (code error)
          then (Some (t, Inl error), lg')
          else (Some (t, Inr None), lg'))"

text \<open>\<open>Array.from(hosts).map(...)\<close>: the sockets are opened in the order of the hosts.\<close>

fun map_hosts ::
  "world \<Rightarrow> bind_log \<Rightarrow> listen_options \<Rightarrow> string option list
     \<Rightarrow> int option settled list \<times> bind_log" where
  "map_hosts w lg options [] = ([], lg)"
| "map_hosts w lg options (h # hs) =
     (case host_probe w lg options h of
        (r, lg') \<Rightarrow>
          (case map_hosts w lg' options hs of (rs, lg'') \<Rightarrow> (r # rs, lg'')))"

text \<open>
  \<open>Promise.all\<close>: it rejects with the rejection that comes first in time (the earlier
  promise of the array when two come at the same time), whatever the others do; with no
  rejection it waits for every promise and gives the values in the order of the array.
\<close>

fun rejections :: "'a settled list \<Rightarrow> (nat \<times> js_error) list" where
  "rejections [] = []"
| "rejections (Some (t, Inl e) # ps) = (t, e) # rejections ps"
| "rejections (_ # ps) = rejections ps"

fun earliest :: "(nat \<times> 'e) list \<Rightarrow> (nat \<times> 'e) option" where
  "earliest [] = None"
| "earliest (x # xs) =
     (case earliest xs of
        None \<Rightarrow> Some x
      | Some y \<Rightarrow> if fst y < fst x then Some y else Some x)"

fun fulfilled :: "'a settled list \<Rightarrow> 'a list option" where
  "fulfilled [] = Some []"
| "fulfilled (Some (t, Inr v) # ps) = map_option ((#) v) (fulfilled ps)"
| "fulfilled (_ # ps) = None"

definition Promise_all :: "'a settled list \<Rightarrow> (js_error + 'a list) option" where
  "Promise_all ps =
     (case earliest (rejections ps) of
        Some (t, e) \<Rightarrow> Some (Inl e)
      | None \<Rightarrow> map_option Inr (fulfilled ps))"

text \<open>\<open>Array.prototype.join\<close>, where \<open>undefined\<close> is rendered as the empty string.\<close>

fun join :: "string \<Rightarrow> string option list \<Rightarrow> string" where
  "join sep [] = []"
| "join sep [x] = (case x of None \<Rightarrow> [] | Some s \<Rightarrow> s)"
| "join sep (x # xs) = (case x of None \<Rightarrow> [] | Some s \<Rightarrow> s) @ sep @ join sep xs"

text \<open>Truthiness of \<open>options.host\<close>: \<open>undefined\<close> and the empty string are falsy.\<close>

definition truthy_host :: "string option \<Rightarrow> bool" where
  "truthy_host h = (case h of None \<Rightarrow> False | Some s \<Rightarrow> s \<noteq> [])"

text \<open>
  \<open>verifyPort\<close> (lines 116 to 152). \<open>results.find\<close> takes the first number of the array
  \<open>Promise.all\<close> gave; \<open>!validPort\<close> holds when there is none, and also when it is 0.
\<close>

definition verifyPort ::
  "world \<Rightarrow> bind_log \<Rightarrow> listen_options \<Rightarrow> string option list
     \<Rightarrow> (js_error + int) option \<times> bind_log" where
  "verifyPort w lg options hosts =
     (if truthy_host (host options) \<or> port options = 0 then
        (case checkPortAvailability w lg options of (r, lg') \<Rightarrow> (map_option snd r, lg'))
      else
        (case map_hosts w lg options hosts of
           (settled, lg') \<Rightarrow>
             (case Promise_all settled of
                None \<Rightarrow> (None, lg')
              | Some (Inl error) \<Rightarrow> (Some (Inl error), lg')
              | Some (Inr results) \<Rightarrow>
                  (let validPort = find (\<lambda>port. port \<noteq> None) results
                   in if validPort = None \<or> validPort = Some (Some 0) then
                        (Some (Inl (new_Error
                           (''Port '' @ show_int (port options)
                            @ '' is not available on any of the network interfaces: ''
                            @ join '', '' hosts))), lg')
                      else (Some (Inr (the (the validPort))), lg')))))"

subsection \<open>The selector\<close>

text \<open>
  The options of \<open>getOpenPort\<close>: \<open>port?: number | number[]\<close>,
  \<open>exclude?: Iterable<number>\<close>, \<open>timeout?: number\<close>. The object is spread into the
  options of every probe, so a \<open>host\<close> property given by the caller reaches
  \<open>verifyPort\<close> too.
\<close>

datatype port_option = Absent | Single int | Array "int list"

record open_options =
  opt_port :: port_option
  exclude :: "int list option"
  opt_timeout :: "int option"
  opt_host :: "string option"

text \<open>\<open>{ ...options, port }\<close>.\<close>

definition with_port :: "open_options \<Rightarrow> int \<Rightarrow> listen_options" where
  "with_port options p = \<lparr>port = p, host = opt_host options, timeout = opt_timeout options\<rparr>"

text \<open>Lines 168 to 176: the sweep is armed when no timer is running.\<close>

definition arm_cleanupTimer :: "portManager \<Rightarrow> portManager" where
  "arm_cleanupTimer pm =
     (if cleanupTimer pm = None then
        (let timer = \<lparr>delay = cleanupInterval pm, has_ref = True\<rparr>
         in pm\<lparr>cleanupTimer := Some (timer\<lparr>has_ref := False\<rparr>)\<rparr>)
      else pm)"

text \<open>
  What one pass through the \<open>try\<close> block does: \<open>return\<close>, \<open>continue\<close>, or throw.
\<close>

datatype attempt = Returned int | Continue | Thrown js_error

text \<open>
  The \<open>while\<close> loop of lines 198 to 202, entered with the port the first verification
  gave, as it runs when nothing else runs during its awaits: the lock table is the one
  the loop was entered with. It has no bound on its iterations; \<open>None\<close> is a loop (or
  a probe) that never finishes.
\<close>

partial_function (option) while_locked ::
  "world \<Rightarrow> portManager \<Rightarrow> open_options \<Rightarrow> string option list \<Rightarrow> int \<Rightarrow> bind_log \<Rightarrow> int
     \<Rightarrow> ((js_error + int) \<times> bind_log) option" where
  "while_locked w pm options hosts p lg availablePort =
     (if has (locked pm) availablePort then
        (if p \<noteq> 0 then Some (Inl (new_LockedPortError p), lg)
         else
           (case verifyPort w lg (with_port options 0) hosts of
              (None, lg') \<Rightarrow> None
            | (Some (Inl error), lg') \<Rightarrow> Some (Inl error, lg')
            | (Some (Inr availablePort'), lg') \<Rightarrow>
                while_locked w pm options hosts p lg' availablePort'))
      else Some (Inr availablePort, lg))"

declare while_locked.simps [code]

text \<open>The body of the \<open>try\<close> block (lines 189 to 205) for the candidate \<open>p\<close>.\<close>

definition try_port ::
  "world \<Rightarrow> open_options \<Rightarrow> string option list \<Rightarrow> int list \<Rightarrow> portManager \<Rightarrow> bind_log \<Rightarrow> int
     \<Rightarrow> (attempt \<times> portManager \<times> bind_log) option" where
  "try_port w options hosts excl pm lg p =
     (if p \<in> set excl \<or> has (locked pm) p then
        (if has (locked pm) p \<and> p \<noteq> 0 then Some (Thrown (new_LockedPortError p), pm, lg)
         else Some (Continue, pm, lg))
      else
        (case verifyPort w lg (with_port options p) hosts of
           (None, lg') \<Rightarrow> None
         | (Some (Inl error), lg') \<Rightarrow> Some (Thrown error, pm, lg')
         | (Some (Inr availablePort), lg') \<Rightarrow>
             (case while_locked w pm options hosts p lg' availablePort of
                None \<Rightarrow> None
              | Some (Inl error, lg'') \<Rightarrow> Some (Thrown error, pm, lg'')
              | Some (Inr availablePort', lg'') \<Rightarrow>
                  Some (Returned availablePort',
                        pm\<lparr>locked := (locked pm)(availablePort' \<mapsto> Date_now w)\<rparr>, lg''))))"

text \<open>
  Lines 219 to 225, reached when the loop over the candidates ends without a
  \<open>return\<close> or an escaping error.
\<close>

definition exhausted :: "portManager \<Rightarrow> int list \<Rightarrow> js_error" where
  "exhausted pm portsToCheck =
     (if list_ex (has (locked pm)) portsToCheck
      then new_LockedPortError (the (find (has (locked pm)) portsToCheck))
      else new_Error ''No available ports found'')"

text \<open>
  The \<open>for\<close> loop of lines 187 to 217 over the candidates still to try, with its
  \<open>catch\<close> clause (lines 206 to 216), followed by lines 219 to 225.
\<close>

fun for_ports ::
  "world \<Rightarrow> open_options \<Rightarrow> string option list \<Rightarrow> int list \<Rightarrow> int list
     \<Rightarrow> portManager \<Rightarrow> bind_log \<Rightarrow> int list
     \<Rightarrow> ((js_error + int) \<times> portManager \<times> bind_log) option" where
  "for_ports w options hosts excl portsToCheck pm lg [] =
     Some (Inl (exhausted pm portsToCheck), pm, lg)"
| "for_ports w options hosts excl portsToCheck pm lg (p # ps) =
     (case try_port w options hosts excl pm lg p of
        None \<Rightarrow> None
      | Some (Returned availablePort, pm', lg') \<Rightarrow> Some (Inr availablePort, pm', lg')
      | Some (Continue, pm', lg') \<Rightarrow> for_ports w options hosts excl portsToCheck pm' lg' ps
      | Some (Thrown error, pm', lg') \<Rightarrow>
          if code error = Some ''EADDRINUSE'' then Some (Inl error, pm', lg')
          else if \<not> Array_includes [''EACCES''] (code error) \<and> cls error \<noteq> LockedPortErrorC
          then Some (Inl error, pm', lg')
          else for_ports w options hosts excl portsToCheck pm' lg' ps)"

text \<open>
  \<open>getOpenPort\<close> (lines 159 to 226), as one call runs when nothing else runs during
  its awaits. The result is \<open>None\<close> when the promise never settles; otherwise the
  rejection or the port, the port manager after the call and the sockets opened. The
  next section cuts the same code at its awaits.
\<close>

definition getOpenPort ::
  "world \<Rightarrow> open_options \<Rightarrow> portManager \<Rightarrow> bind_log
     \<Rightarrow> ((js_error + int) \<times> portManager \<times> bind_log) option" where
  "getOpenPort w options pm lg =
     (let excl = new_Set (case exclude options of Some xs \<Rightarrow> xs | None \<Rightarrow> []);
          pm = arm_cleanupTimer pm;
          hosts = createHosts (os_networkInterfaces w);
          portsToCheck = createPorts
            (case opt_port options of
               Array ps \<Rightarrow> Some (new_Set ps)
             | Single p \<Rightarrow> Some [p]
             | Absent \<Rightarrow> None)
      in for_ports w options hosts excl portsToCheck pm lg portsToCheck)"

subsection \<open>The selector between its awaits\<close>

text \<open>
  \<open>getOpenPort\<close> is an \<open>async\<close> function. It runs without interruption up to an
  \<open>await verifyPort(...)\<close> (line 196 or line 201) and is suspended there until the
  verification settles; in between, \<open>clearLockedPorts\<close>, the sweep, a write to the lock
  table or another call may run. The definitions of this section are the same code as
  \<open>try_port\<close>, \<open>for_ports\<close> and \<open>getOpenPort\<close>, cut at the two awaits.

  A suspended call: its world, the values of its local variables (\<open>options\<close>,
  \<open>hosts\<close>, \<open>exclude\<close>, \<open>portsToCheck\<close>, the candidate \<open>port\<close> of the current
  iteration and the candidates after it), and the fate of the verification it waits for
  (\<open>None\<close> when that never settles). The sockets of a verification are opened when it
  is started, and the world then fixes what it settles to.
\<close>

record task =
  t_world :: world
  t_options :: open_options
  t_hosts :: "string option list"
  t_exclude :: "int list"
  t_portsToCheck :: "int list"
  t_port :: int
  t_rest :: "int list"
  t_awaited :: "(js_error + int) option"

text \<open>A call has finished, with its rejection or its port, or is suspended.\<close>

datatype progress = Finished "js_error + int" | Suspended task

text \<open>
  The \<open>catch\<close> clause (lines 206 to 216): whether it throws the error again. When it
  does not, the loop goes on with the next candidate.
\<close>

definition rethrows :: "js_error \<Rightarrow> bool" where
  "rethrows error =
     (if code error = Some ''EADDRINUSE'' then True
      else if \<not> Array_includes [''EACCES''] (code error) \<and> cls error \<noteq> LockedPortErrorC then True
      else False)"

text \<open>
  The \<open>for\<close> loop from the candidate list \<open>ps\<close> on, up to the first
  \<open>await verifyPort\<close> of line 196 or, when no candidate is left, through lines 219 to
  225. A locked candidate throws its \<open>LockedPortError\<close> into the \<open>catch\<close> clause.
\<close>

fun scan ::
  "world \<Rightarrow> open_options \<Rightarrow> string option list \<Rightarrow> int list \<Rightarrow> int list
     \<Rightarrow> portManager \<Rightarrow> bind_log \<Rightarrow> int list \<Rightarrow> progress \<times> portManager \<times> bind_log" where
  "scan w options hosts excl portsToCheck pm lg [] =
     (Finished (Inl (exhausted pm portsToCheck)), pm, lg)"
| "scan w options hosts excl portsToCheck pm lg (p # ps) =
     (if p \<in> set excl \<or> has (locked pm) p then
        (if has (locked pm) p \<and> p \<noteq> 0 then
           (if rethrows (new_LockedPortError p)
            then (Finished (Inl (new_LockedPortError p)), pm, lg)
            else scan w options hosts excl portsToCheck pm lg ps)
         else scan w options hosts excl portsToCheck pm lg ps)
      else
        (case verifyPort w lg (with_port options p) hosts of
           (r, lg') \<Rightarrow>
             (Suspended \<lparr>t_world = w, t_options = options, t_hosts = hosts, t_exclude = excl,
                         t_portsToCheck = portsToCheck, t_port = p, t_rest = ps,
                         t_awaited = r\<rparr>, pm, lg')))"

text \<open>The loop goes on with the candidates after the current one.\<close>

definition next_port :: "task \<Rightarrow> portManager \<Rightarrow> bind_log \<Rightarrow> progress \<times> portManager \<times> bind_log" where
  "next_port t pm lg =
     scan (t_world t) (t_options t) (t_hosts t) (t_exclude t) (t_portsToCheck t) pm lg (t_rest t)"

text \<open>
  The call is resumed when the verification it waits for has settled with \<open>r\<close>; the
  port manager and the sockets are what they are at that moment. A rejection is thrown
  into the \<open>catch\<close> clause. A port is tested by the \<open>while\<close> of line 198: when it is
  locked, a candidate other than 0 throws its \<open>LockedPortError\<close> and the candidate 0
  starts a fresh ephemeral verification (line 201) and waits again; when it is not locked
  it is reserved and returned (lines 204 and 205).
\<close>

definition resume ::
  "task \<Rightarrow> js_error + int \<Rightarrow> portManager \<Rightarrow> bind_log \<Rightarrow> progress \<times> portManager \<times> bind_log" where
  "resume t r pm lg =
     (case r of
        Inl error \<Rightarrow>
          if rethrows error then (Finished (Inl error), pm, lg) else next_port t pm lg
      | Inr availablePort \<Rightarrow>
          if has (locked pm) availablePort then
            (if t_port t \<noteq> 0 then
               (if rethrows (new_LockedPortError (t_port t))
                then (Finished (Inl (new_LockedPortError (t_port t))), pm, lg)
                else next_port t pm lg)
             else
               (case verifyPort (t_world t) lg (with_port (t_options t) 0) (t_hosts t) of
                  (r', lg') \<Rightarrow> (Suspended (t\<lparr>t_awaited := r'\<rparr>), pm, lg')))
          else
            (Finished (Inr availablePort),
             pm\<lparr>locked := (locked pm)(availablePort \<mapsto> Date_now (t_world t))\<rparr>, lg))"

text \<open>The call from its start to its first await (lines 166 to 196).\<close>

definition start ::
  "world \<Rightarrow> open_options \<Rightarrow> portManager \<Rightarrow> bind_log \<Rightarrow> progress \<times> portManager \<times> bind_log" where
  "start w options pm lg =
     (let excl = new_Set (case exclude options of Some xs \<Rightarrow> xs | None \<Rightarrow> []);
          pm = arm_cleanupTimer pm;
          hosts = createHosts (os_networkInterfaces w);
          portsToCheck = createPorts
            (case opt_port options of
               Array ps \<Rightarrow> Some (new_Set ps)
             | Single p \<Rightarrow> Some [p]
             | Absent \<Rightarrow> None)
      in scan w options hosts excl portsToCheck pm lg portsToCheck)"

text \<open>
  A call that nothing interleaves with: it is resumed as soon as its verification has
  settled, with the port manager it left. \<open>None\<close> is a call that never settles.
\<close>

partial_function (option) drive ::
  "progress \<times> portManager \<times> bind_log \<Rightarrow> ((js_error + int) \<times> portManager \<times> bind_log) option" where
  "drive x =
     (case x of
        (Finished r, pm, lg) \<Rightarrow> Some (r, pm, lg)
      | (Suspended t, pm, lg) \<Rightarrow>
          (case t_awaited t of None \<Rightarrow> None | Some r \<Rightarrow> drive (resume t r pm lg)))"

declare drive.simps [code]

text \<open>
  What lines 204 to 216 and the rest of the candidate loop make of the result of the
  \<open>while\<close> loop (\<open>while_locked\<close>) in a call that nothing interleaves with.
\<close>

definition after_loop ::
  "task \<Rightarrow> portManager \<Rightarrow> ((js_error + int) \<times> bind_log) option
     \<Rightarrow> ((js_error + int) \<times> portManager \<times> bind_log) option" where
  "after_loop t pm res =
     (case res of
        None \<Rightarrow> None
      | Some (Inl error, lg) \<Rightarrow>
          if rethrows error then Some (Inl error, pm, lg)
          else for_ports (t_world t) (t_options t) (t_hosts t) (t_exclude t) (t_portsToCheck t)
                 pm lg (t_rest t)
      | Some (Inr availablePort, lg) \<Rightarrow>
          Some (Inr availablePort,
                pm\<lparr>locked := (locked pm)(availablePort \<mapsto> Date_now (t_world t))\<rparr>, lg))"

subsection \<open>The range generator\<close>

text \<open>
  \<open>getPortRange\<close> is exported to untyped callers (the tests pass strings and
  \<open>1024.5\<close>), so its arguments are JavaScript values: a finite number, \<open>NaN\<close>, an
  infinity, a string, or \<open>undefined\<close>.
\<close>

datatype js_value = JNumber rat | JNaN | JInfinity bool | JString string | JUndefined

text \<open>\<open>Number.isInteger\<close>: a finite number without fractional part.\<close>

definition Number_isInteger :: "js_value \<Rightarrow> bool" where
  "Number_isInteger v = (case v of JNumber q \<Rightarrow> of_int \<lfloor>q\<rfloor> = q | _ \<Rightarrow> False)"

text \<open>\<open>Array.from({ length: n }, (_, i) => fn(i))\<close>.\<close>

definition Array_from :: "rat \<Rightarrow> (nat \<Rightarrow> 'a) \<Rightarrow> 'a list" where
  "Array_from len fn = map fn [0..<nat \<lfloor>len\<rfloor>]"

text \<open>
  \<open>getPortRange\<close> (lines 234 to 256). After the first check both arguments are
  finite numbers, so the last case of the \<open>case\<close> is never taken.
\<close>

definition getPortRange :: "portManager \<Rightarrow> js_value \<Rightarrow> js_value \<Rightarrow> js_error + rat list" where
  "getPortRange pm from to =
     (if \<not> Number_isInteger from \<or> \<not> Number_isInteger to then
        Inl (new_TypeError ''`from` and `to` must be integer numbers'')
      else
        (case (from, to) of
           (JNumber f, JNumber t) \<Rightarrow>
             if f < of_int (minPort pm) \<or> f > of_int (maxPort pm) then
               Inl (new_RangeError (''`from` must be between '' @ show_int (minPort pm)
                                    @ '' and '' @ show_int (maxPort pm)))
             else if t < of_int (minPort pm) \<or> t > of_int (maxPort pm) then
               Inl (new_RangeError (''`to` must be between '' @ show_int (minPort pm)
                                    @ '' and '' @ show_int (maxPort pm)))
             else if f > t then
               Inl (new_RangeError ''`to` must be greater than or equal to `from`'')
             else Inr (Array_from (t - f + 1) (\<lambda>i. f + of_nat i))
         | _ \<Rightarrow> Inl (new_TypeError ''`from` and `to` must be integer numbers'')))"

subsection \<open>Histories of the port manager\<close>

text \<open>
  What can happen to the port manager, one uninterrupted piece of code at a time: a call
  of \<open>getOpenPort\<close> runs to its first await (or to its rejection); the verification the
  \<open>i\<close>-th suspended call waits for settles, and that call runs on to its next await or
  to its end; \<open>clearLockedPorts\<close> is called; the timer runs \<open>cleanupExpiredPorts\<close> at
  some clock value (only while a timer is armed); the caller locks a port by hand with
  \<open>portManager.locked.set(port, timestamp)\<close>, as the README shows.
\<close>

datatype operation =
  Call world open_options
| Settle nat
| ClearLockedPorts
| Sweep int
| UserLock int int

text \<open>
  The state of a history: the port manager, the sockets opened, the suspended calls, and
  whether some call of \<open>getOpenPort\<close> has reserved a port since the start or the last
  \<open>clearLockedPorts\<close>.
\<close>

record history_state =
  manager :: portManager
  sockets :: bind_log
  pending :: "task list"
  reserved :: bool

definition initial :: history_state where
  "initial = \<lparr>manager = portManager_init, sockets = [], pending = [], reserved = False\<rparr>"

text \<open>The state after a piece of a call has run.\<close>

definition advance ::
  "history_state \<Rightarrow> progress \<times> portManager \<times> bind_log \<Rightarrow> history_state" where
  "advance s x =
     (case x of
        (Finished (Inl error), pm, lg) \<Rightarrow> s\<lparr>manager := pm, sockets := lg\<rparr>
      | (Finished (Inr p), pm, lg) \<Rightarrow> s\<lparr>manager := pm, sockets := lg, reserved := True\<rparr>
      | (Suspended t, pm, lg) \<Rightarrow> s\<lparr>manager := pm, sockets := lg, pending := pending s @ [t]\<rparr>)"

text \<open>
  One operation. \<open>Settle i\<close> cannot happen (\<open>None\<close>) when there is no \<open>i\<close>-th
  suspended call or when its verification never settles.
\<close>

fun step :: "operation \<Rightarrow> history_state \<Rightarrow> history_state option" where
  "step (Call w options) s = Some (advance s (start w options (manager s) (sockets s)))"
| "step (Settle i) s =
     (if i < length (pending s) then
        (case t_awaited (pending s ! i) of
           None \<Rightarrow> None
         | Some r \<Rightarrow>
             Some (advance (s\<lparr>pending := take i (pending s) @ drop (Suc i) (pending s)\<rparr>)
                     (resume (pending s ! i) r (manager s) (sockets s))))
      else None)"
| "step ClearLockedPorts s =
     Some (s\<lparr>manager := clearLockedPorts (manager s), reserved := False\<rparr>)"
| "step (Sweep now) s =
     Some (if cleanupTimer (manager s) \<noteq> None
           then s\<lparr>manager := cleanupExpiredPorts now (manager s)\<rparr> else s)"
| "step (UserLock p timestamp) s =
     Some (s\<lparr>manager := (manager s)\<lparr>locked := (locked (manager s))(p \<mapsto> timestamp)\<rparr>\<rparr>)"

fun run :: "operation list \<Rightarrow> history_state \<Rightarrow> history_state option" where
  "run [] s = Some s"
| "run (operation # rest) s = (case step operation s of None \<Rightarrow> None | Some s' \<Rightarrow> run rest s')"

text \<open>
  Whether \<open>getOpenPort\<close> has been called since the start or the last
  \<open>clearLockedPorts\<close>, given whether it had been before the history.
\<close>

fun called_since_clear :: "bool \<Rightarrow> operation list \<Rightarrow> bool" where
  "called_since_clear b [] = b"
| "called_since_clear b (Call w options # rest) = called_since_clear True rest"
| "called_since_clear b (ClearLockedPorts # rest) = called_since_clear False rest"
| "called_since_clear b (_ # rest) = called_since_clear b rest"

subsection \<open>Worlds and options used as examples\<close>

text \<open>The default \<open>options = {}\<close>.\<close>

definition no_options :: open_options where
  "no_options = \<lparr>opt_port = Absent, exclude = None, opt_timeout = None, opt_host = None\<rparr>"

text \<open>One external interface, as in the mock of \<open>test.js\<close>.\<close>

definition eth0 :: "net_config list option list" where
  "eth0 = [Some [\<lparr>address = ''192.168.1.1'', internal = False\<rparr>]]"

text \<open>
  A world in which every socket listens: on the port asked for, or on \<open>q\<close> when asked
  for an ephemeral port.
\<close>

definition os_world :: "int \<Rightarrow> world" where
  "os_world q =
     \<lparr>os_networkInterfaces = eth0,
      net_listen = (\<lambda>i h p ms. Listening 1 (Some (if p = 0 then q else p))),
      Date_now = 1000\<rparr>"

text \<open>An error of the socket layer with the code \<open>c\<close>.\<close>

definition os_error :: "string \<Rightarrow> js_error" where
  "os_error c = \<lparr>cls = ErrorC, name = ''Error'', message = ''listen '' @ c, code = Some c\<rparr>"

text \<open>A world in which listening on port 3000 fails with the code \<open>c\<close> on every host.\<close>

definition failing_world :: "string \<Rightarrow> world" where
  "failing_world c =
     \<lparr>os_networkInterfaces = eth0,
      net_listen = (\<lambda>i h p ms. if p = 3000 then SocketError 1 (os_error c)
                               else Listening 1 (Some p)),
      Date_now = 1000\<rparr>"

text \<open>The hosts \<open>createHosts\<close> gives for \<open>eth0\<close>, and the three sockets a fan-out for port 3000 opens on them.\<close>

definition hosts3 :: "string option list" where
  "hosts3 = [None, Some ''0.0.0.0'', Some ''192.168.1.1'']"

definition log3000 :: bind_log where
  "log3000 = [(None, 3000), (Some ''0.0.0.0'', 3000), (Some ''192.168.1.1'', 3000)]"

subsection \<open>The re-verification loop, step by step\<close>

text \<open>
  The loop of lines 198 to 202 for the candidate 0, entered with the sockets \<open>lg\<close>
  opened so far: every pass opens one socket for \<open>(options.host, 0)\<close>, so the \<open>k\<close>-th
  re-verification (counting from 0) is the verification made after \<open>k\<close> such sockets.
\<close>

definition reverify ::
  "world \<Rightarrow> open_options \<Rightarrow> string option list \<Rightarrow> bind_log \<Rightarrow> nat \<Rightarrow> (js_error + int) option" where
  "reverify w options hosts lg k =
     fst (verifyPort w (lg @ replicate k (opt_host options, 0)) (with_port options 0) hosts)"

text \<open>A re-verification sends the loop round again when it gives a port that is locked.\<close>

definition still_locked :: "portManager \<Rightarrow> (js_error + int) option \<Rightarrow> bool" where
  "still_locked pm r = (case r of Some (Inr q) \<Rightarrow> has (locked pm) q | _ \<Rightarrow> False)"

text \<open>
  A world whose first two sockets are bound to port 40000 and the later ones to 40001; a
  world whose first socket is bound to 40000 and whose later sockets never listen, so that
  their timers fire; and a port manager in which 40000 is locked.
\<close>

definition retry_world :: world where
  "retry_world =
     \<lparr>os_networkInterfaces = eth0,
      net_listen = (\<lambda>i h p ms. Listening 1 (Some (if i < 2 then 40000 else 40001))),
      Date_now = 1000\<rparr>"

definition stalled_world :: world where
  "stalled_world =
     \<lparr>os_networkInterfaces = eth0,
      net_listen = (\<lambda>i h p ms. if i = 0 then Listening 1 (Some 40000) else TimerFired (nat ms)),
      Date_now = 1000\<rparr>"

definition locked_40000 :: portManager where
  "locked_40000 = portManager_init\<lparr>locked := [40000 \<mapsto> 0]\<rparr>"

subsection \<open>Orders on the results of a fan-out\<close>






subsection \<open>Examples for the timeout and for suspended calls\<close>

text \<open>
  A world whose sockets take 500 ms to listen: they listen, on the port asked for, when
  the timer of the probe runs longer than that, and otherwise the timer fires.
\<close>

definition slow_world :: world where
  "slow_world =
     \<lparr>os_networkInterfaces = eth0,
      net_listen = (\<lambda>i h p ms. if 500 < ms then Listening 500 (Some p) else TimerFired (nat ms)),
      Date_now = 1000\<rparr>"

text \<open>
  The call \<open>getOpenPort()\<close> in the world \<open>w\<close>, suspended on a verification for the
  candidate 0 that settles with port 40000.
\<close>

definition ephemeral_task :: "world \<Rightarrow> task" where
  "ephemeral_task w =
     \<lparr>t_world = w, t_options = no_options, t_hosts = hosts3, t_exclude = [],
      t_portsToCheck = [0], t_port = 0, t_rest = [], t_awaited = Some (Inr 40000)\<rparr>"

section \<open>Properties\<close>

subsection \<open>Auxiliary facts\<close>

lemma new_Set_single: "new_Set [x] = [x]"
  by (simp add: new_Set_def Set_add_def)

lemma new_Set_Nil: "new_Set [] = []"
  by (simp add: new_Set_def)

lemma locked_arm: "locked (arm_cleanupTimer pm) = locked pm"
  by (simp add: arm_cleanupTimer_def Let_def)

lemma show_int_8080: "show_int 8080 = ''8080''"
  by (simp add: show_int_def show_nat.simps digit_char_def)

lemma show_int_1000: "show_int 1000 = ''1000''"
  by (simp add: show_int_def show_nat.simps digit_char_def)

lemma show_int_100: "show_int 100 = ''100''"
  by (simp add: show_int_def show_nat.simps digit_char_def)

lemma show_int_3000: "show_int 3000 = ''3000''"
  by (simp add: show_int_def show_nat.simps digit_char_def)

lemma createHosts_eth0: "createHosts eth0 = [None, Some ''0.0.0.0'', Some ''192.168.1.1'']"
  by (simp add: createHosts_def eth0_def new_Set_def Set_add_def)

subsection \<open>The error for a locked port\<close>

text \<open>
  Claim C2. A \<open>LockedPortError\<close> should carry the port as structured data. It does
  not: the rejection of \<open>getOpenPort({ port: 8080 })\<close> while 8080 is locked is an
  object whose only properties are the class, \<open>name\<close>, \<open>message\<close> and \<open>code\<close>, and two
  such errors for different ports differ in their message only. The README reads
  \<open>error.port\<close>, which is \<open>undefined\<close>.
\<close>

theorem LockedPortError_port_only_in_message:
  "getOpenPort (os_world 40000) (no_options\<lparr>opt_port := Single 8080\<rparr>)
       (portManager_init\<lparr>locked := [8080 \<mapsto> 0]\<rparr>) []
     = Some (Inl \<lparr>cls = LockedPortErrorC, name = ''LockedPortError'',
                   message = ''Port 8080 is locked'', code = Some ''EPORTLOCKED''\<rparr>,
             arm_cleanupTimer (portManager_init\<lparr>locked := [8080 \<mapsto> 0]\<rparr>), [])
   \<and> (new_LockedPortError p)\<lparr>message := m\<rparr> = (new_LockedPortError q)\<lparr>message := m\<rparr>"
  by (simp add: getOpenPort_def createPorts_def new_Set_single new_Set_Nil try_port_def
      locked_arm exhausted_def new_LockedPortError_def Array_includes_def no_options_def
      has_def portManager_init_def show_int_8080)

subsection \<open>Exclusion\<close>

text \<open>
  Claim C1. A port of the exclusion collection should never be returned. The check of
  line 189 looks at the candidate only: with no \<open>port\<close> option the candidate is 0,
  and when the system then binds the ephemeral port 40000 the call resolves to 40000
  although 40000 is excluded.
\<close>

theorem excluded_ephemeral_port_returned:
  "map_option fst (getOpenPort (os_world 40000) (no_options\<lparr>exclude := Some [40000]\<rparr>)
                     portManager_init [])
     = Some (Inr 40000)"
  by (simp add: getOpenPort_def os_world_def no_options_def portManager_init_def new_Set_def
      Set_add_def createPorts_def createHosts_eth0 arm_cleanupTimer_def try_port_def
      verifyPort_def with_port_def has_def truthy_host_def checkPortAvailability_def
      while_locked.simps)

subsection \<open>Locked candidates\<close>

text \<open>
  Claim C6. A call that asks for the single port \<open>p\<close> (as \<open>port: p\<close> or as
  \<open>port: [p]\<close>), not 0 and present in the lock table, rejects with the
  \<open>LockedPortError\<close> of \<open>p\<close>, whatever the other options and the world are; the
  sockets opened are the same after the call as before, so nothing was bound. The only
  change to the port manager is the armed timer.
\<close>

theorem locked_port_rejected_without_probe:
  assumes "p \<noteq> 0" and "has (locked pm) p"
  shows "getOpenPort w (options\<lparr>opt_port := Single p\<rparr>) pm lg
           = Some (Inl (new_LockedPortError p), arm_cleanupTimer pm, lg)
       \<and> getOpenPort w (options\<lparr>opt_port := Array [p]\<rparr>) pm lg
           = Some (Inl (new_LockedPortError p), arm_cleanupTimer pm, lg)"
  using assms
  by (simp add: getOpenPort_def createPorts_def new_Set_single try_port_def locked_arm
      exhausted_def new_LockedPortError_def Array_includes_def)

theorem locked_port_rejected_without_probe_witness:
  "(3000::int) \<noteq> 0 \<and> has (locked (portManager_init\<lparr>locked := [3000 \<mapsto> 0]\<rparr>)) 3000
   \<and> getOpenPort (os_world 40000) (no_options\<lparr>opt_port := Single 3000\<rparr>)
        (portManager_init\<lparr>locked := [3000 \<mapsto> 0]\<rparr>) []
      = Some (Inl (new_LockedPortError 3000),
              arm_cleanupTimer (portManager_init\<lparr>locked := [3000 \<mapsto> 0]\<rparr>), [])"
proof -
  have h1: "(3000::int) \<noteq> 0" by simp
  have h2: "has (locked (portManager_init\<lparr>locked := [3000 \<mapsto> 0]\<rparr>)) 3000"
    by (simp add: has_def)
  show ?thesis
    using h1 h2
      locked_port_rejected_without_probe [OF h1 h2, of "os_world 40000" no_options "[]",
        THEN conjunct1]
    by simp
qed

subsection \<open>An empty preference list\<close>

text \<open>
  Claim C9. With \<open>port: []\<close> the candidate list is empty (no 0 is put in its place):
  the call rejects with the error "No available ports found", opens no socket and
  leaves the lock table as it was.
\<close>

theorem empty_port_list_rejected:
  "getOpenPort w (options\<lparr>opt_port := Array []\<rparr>) pm lg
     = Some (Inl (new_Error ''No available ports found''), arm_cleanupTimer pm, lg)
   \<and> locked (arm_cleanupTimer pm) = locked pm"
  by (simp add: getOpenPort_def createPorts_def new_Set_Nil locked_arm exhausted_def)

subsection \<open>The timeout of a probe\<close>

text \<open>
  Claim C10. A \<open>timeout\<close> of 0 is treated as an absent one. The probe starts its
  socket with a timer of 1000 ms: it is what the listening socket, its error or the timer
  makes of it under a timer of 1000 ms, and when the timer fires the message names
  1000 ms. So a socket that takes 500 ms to listen is waited for under \<open>timeout: 0\<close>,
  where \<open>timeout: 100\<close> times out.
\<close>

theorem timeout_zero_is_default:
  "timeoutMs (options\<lparr>timeout := Some 0\<rparr>) = 1000
   \<and> timeoutMs (options\<lparr>timeout := None\<rparr>) = 1000
   \<and> checkPortAvailability w lg (options\<lparr>timeout := Some 0\<rparr>)
       = checkPortAvailability w lg (options\<lparr>timeout := None\<rparr>)
   \<and> checkPortAvailability w lg (options\<lparr>timeout := Some 0\<rparr>)
       = (case net_listen w (length lg) (host options) (port options) 1000 of
            TimerFired t \<Rightarrow> Some (t, Inl (new_Error ''Port check timed out after 1000ms''))
          | SocketError t err \<Rightarrow> Some (t, Inl err)
          | Listening t addr \<Rightarrow> (case addr of Some p \<Rightarrow> Some (t, Inr p) | None \<Rightarrow> None),
          lg @ [(host options, port options)])
   \<and> checkPortAvailability slow_world [] \<lparr>port = 3000, host = None, timeout = Some 0\<rparr>
       = (Some (500, Inr 3000), [(None, 3000)])
   \<and> checkPortAvailability slow_world [] \<lparr>port = 3000, host = None, timeout = Some 100\<rparr>
       = (Some (100, Inl (new_Error ''Port check timed out after 100ms'')), [(None, 3000)])"
  by (simp add: checkPortAvailability_def timeoutMs_def show_int_1000 show_int_100 slow_world_def
      split: socket_event.splits)

subsection \<open>The catch clause of the candidate loop\<close>

lemmas eval_defs = try_port_def failing_world_def no_options_def hosts3_def has_def
  portManager_init_def verifyPort_def with_port_def truthy_host_def host_probe_def
  checkPortAvailability_def Promise_all_def os_error_def Array_includes_def log3000_def
  while_locked.simps exhausted_def new_LockedPortError_def

text \<open>
  Claim C7. When the attempt on the candidate \<open>p\<close> throws \<open>error\<close>: with the code
  \<open>EADDRINUSE\<close> the selection rejects with that error in the state the attempt left,
  so no later candidate is tried; with the code \<open>EACCES\<close>, or when the error is a
  \<open>LockedPortError\<close>, the loop goes on with the remaining candidates; any other error
  rejects the selection like \<open>EADDRINUSE\<close> does.
\<close>

theorem catch_clause:
  assumes "try_port w options hosts excl pm lg p = Some (Thrown error, pm', lg')"
  shows "(code error = Some ''EADDRINUSE'' \<longrightarrow>
           for_ports w options hosts excl portsToCheck pm lg (p # ps) = Some (Inl error, pm', lg'))
       \<and> (code error = Some ''EACCES'' \<or> (\<exists>q. error = new_LockedPortError q) \<longrightarrow>
           for_ports w options hosts excl portsToCheck pm lg (p # ps)
             = for_ports w options hosts excl portsToCheck pm' lg' ps)
       \<and> (code error \<noteq> Some ''EADDRINUSE'' \<and> code error \<noteq> Some ''EACCES''
            \<and> cls error \<noteq> LockedPortErrorC \<longrightarrow>
           for_ports w options hosts excl portsToCheck pm lg (p # ps) = Some (Inl error, pm', lg'))"
  using assms
  by (auto simp add: Array_includes_def new_LockedPortError_def split: option.splits)

text \<open>
  The four cases on the candidates 3000 and 3001: \<open>EADDRINUSE\<close> on 3000 rejects after
  the three sockets for 3000; \<open>EACCES\<close> on 3000 and a locked 3000 both lead to 3001
  being reserved; \<open>ECONNRESET\<close> on 3000 rejects.
\<close>

theorem catch_clause_witness:
  "for_ports (failing_world ''EADDRINUSE'') no_options hosts3 [] [3000, 3001] portManager_init []
       [3000, 3001]
     = Some (Inl (os_error ''EADDRINUSE''), portManager_init, log3000)
   \<and> for_ports (failing_world ''EACCES'') no_options hosts3 [] [3000, 3001] portManager_init []
       [3000, 3001]
     = Some (Inr 3001, portManager_init\<lparr>locked := [3001 \<mapsto> 1000]\<rparr>,
             log3000 @ [(None, 3001), (Some ''0.0.0.0'', 3001), (Some ''192.168.1.1'', 3001)])
   \<and> for_ports (os_world 40000) no_options hosts3 [] [3000, 3001]
       (portManager_init\<lparr>locked := [3000 \<mapsto> 0]\<rparr>) [] [3000, 3001]
     = Some (Inr 3001, portManager_init\<lparr>locked := [3000 \<mapsto> 0, 3001 \<mapsto> 1000]\<rparr>,
             [(None, 3001), (Some ''0.0.0.0'', 3001), (Some ''192.168.1.1'', 3001)])
   \<and> for_ports (failing_world ''ECONNRESET'') no_options hosts3 [] [3000, 3001] portManager_init []
       [3000, 3001]
     = Some (Inl (os_error ''ECONNRESET''), portManager_init, log3000)"
proof -
  have t1: "try_port (failing_world ''EADDRINUSE'') no_options hosts3 [] portManager_init [] 3000
     = Some (Thrown (os_error ''EADDRINUSE''), portManager_init, log3000)"
    by (simp add: eval_defs)
  have t2: "try_port (failing_world ''EACCES'') no_options hosts3 [] portManager_init [] 3000
     = Some (Thrown (os_error ''EACCES''), portManager_init, log3000)"
    by (simp add: eval_defs)
  have t3: "try_port (os_world 40000) no_options hosts3 []
       (portManager_init\<lparr>locked := [3000 \<mapsto> 0]\<rparr>) [] 3000
     = Some (Thrown (new_LockedPortError 3000), portManager_init\<lparr>locked := [3000 \<mapsto> 0]\<rparr>, [])"
    by (simp add: try_port_def has_def)
  have t4: "try_port (failing_world ''ECONNRESET'') no_options hosts3 [] portManager_init [] 3000
     = Some (Thrown (os_error ''ECONNRESET''), portManager_init, log3000)"
    by (simp add: eval_defs)
  have c1: "code (os_error ''EADDRINUSE'') = Some ''EADDRINUSE''"
    by (simp add: os_error_def)
  have c2: "code (os_error ''EACCES'') = Some ''EACCES''"
    by (simp add: os_error_def)
  have c4: "code (os_error ''ECONNRESET'') \<noteq> Some ''EADDRINUSE'' \<and>
            code (os_error ''ECONNRESET'') \<noteq> Some ''EACCES'' \<and>
            cls (os_error ''ECONNRESET'') \<noteq> LockedPortErrorC"
    by (simp add: os_error_def)
  have r2: "for_ports (failing_world ''EACCES'') no_options hosts3 [] [3000, 3001] portManager_init
       log3000 [3001]
     = Some (Inr 3001, portManager_init\<lparr>locked := [3001 \<mapsto> 1000]\<rparr>,
             log3000 @ [(None, 3001), (Some ''0.0.0.0'', 3001), (Some ''192.168.1.1'', 3001)])"
    by (simp add: eval_defs)
  have r3: "for_ports (os_world 40000) no_options hosts3 [] [3000, 3001]
       (portManager_init\<lparr>locked := [3000 \<mapsto> 0]\<rparr>) [] [3001]
     = Some (Inr 3001, portManager_init\<lparr>locked := [3000 \<mapsto> 0, 3001 \<mapsto> 1000]\<rparr>,
             [(None, 3001), (Some ''0.0.0.0'', 3001), (Some ''192.168.1.1'', 3001)])"
    by (simp add: eval_defs os_world_def)
  have a1: "for_ports (failing_world ''EADDRINUSE'') no_options hosts3 [] [3000, 3001]
       portManager_init [] [3000, 3001]
     = Some (Inl (os_error ''EADDRINUSE''), portManager_init, log3000)"
    using catch_clause [OF t1, of "[3000, 3001]" "[3001]"] c1 by blast
  have "for_ports (failing_world ''EACCES'') no_options hosts3 [] [3000, 3001]
       portManager_init [] [3000, 3001]
     = for_ports (failing_world ''EACCES'') no_options hosts3 [] [3000, 3001]
       portManager_init log3000 [3001]"
    using catch_clause [OF t2, of "[3000, 3001]" "[3001]"] c2 by blast
  then have a2: "for_ports (failing_world ''EACCES'') no_options hosts3 [] [3000, 3001]
       portManager_init [] [3000, 3001]
     = Some (Inr 3001, portManager_init\<lparr>locked := [3001 \<mapsto> 1000]\<rparr>,
             log3000 @ [(None, 3001), (Some ''0.0.0.0'', 3001), (Some ''192.168.1.1'', 3001)])"
    using r2 by (rule trans)
  have "for_ports (os_world 40000) no_options hosts3 [] [3000, 3001]
       (portManager_init\<lparr>locked := [3000 \<mapsto> 0]\<rparr>) [] [3000, 3001]
     = for_ports (os_world 40000) no_options hosts3 [] [3000, 3001]
       (portManager_init\<lparr>locked := [3000 \<mapsto> 0]\<rparr>) [] [3001]"
    using catch_clause [OF t3, of "[3000, 3001]" "[3001]"] by blast
  then have a3: "for_ports (os_world 40000) no_options hosts3 [] [3000, 3001]
       (portManager_init\<lparr>locked := [3000 \<mapsto> 0]\<rparr>) [] [3000, 3001]
     = Some (Inr 3001, portManager_init\<lparr>locked := [3000 \<mapsto> 0, 3001 \<mapsto> 1000]\<rparr>,
             [(None, 3001), (Some ''0.0.0.0'', 3001), (Some ''192.168.1.1'', 3001)])"
    using r3 by (rule trans)
  have a4: "for_ports (failing_world ''ECONNRESET'') no_options hosts3 [] [3000, 3001]
       portManager_init [] [3000, 3001]
     = Some (Inl (os_error ''ECONNRESET''), portManager_init, log3000)"
    using catch_clause [OF t4, of "[3000, 3001]" "[3001]"] c4 by blast
  show ?thesis
    using a1 a2 a3 a4 by (intro conjI)
qed

subsection \<open>The range generator\<close>

lemma upto_as_map: "map (\<lambda>i. a + int i) [0..<nat (b - a + 1)] = [a..b]"
  by (rule nth_equalityI) (auto simp: nth_upto)

lemma Array_from_range:
  "Array_from (of_int b - of_int a + 1) (\<lambda>i. (of_int a :: rat) + of_nat i) = map of_int [a..b]"
proof -
  have "(of_int b - of_int a + 1 :: rat) = of_int (b - a + 1)" by simp
  then have "Array_from (of_int b - of_int a + 1) (\<lambda>i. (of_int a :: rat) + of_nat i)
      = map (\<lambda>i. (of_int a :: rat) + of_nat i) [0..<nat (b - a + 1)]"
    unfolding Array_from_def by (simp only: floor_of_int)
  also have "\<dots> = map of_int (map (\<lambda>i. a + int i) [0..<nat (b - a + 1)])"
    by simp
  finally show ?thesis by (simp only: upto_as_map)
qed

lemma isInteger_of_int: "Number_isInteger (JNumber (of_int a))"
  by (simp add: Number_isInteger_def)

lemma not_isInteger_half: "\<not> Number_isInteger (JNumber (2049 / 2))"
  by code_simp

text \<open>
  Claim C8. For integers \<open>a\<close> and \<open>b\<close> with \<open>minPort \<le> a \<le> b \<le> maxPort\<close>,
  \<open>getPortRange(a, b)\<close> returns the list \<open>[a, a + 1, ..., b]\<close>, of \<open>b - a + 1\<close>
  elements. When one argument is not an integer number the call throws a
  \<open>TypeError\<close>; for integers of which one is out of the bounds, or with \<open>a > b\<close>, it
  throws a \<open>RangeError\<close>. The bounds are the fields \<open>minPort\<close> and \<open>maxPort\<close> of
  the port manager at the time of the call; numbers are exact, as doubles are on the
  integers of the port range.
\<close>

theorem getPortRange_spec:
  "(minPort pm \<le> a \<and> a \<le> b \<and> b \<le> maxPort pm \<longrightarrow>
      getPortRange pm (JNumber (of_int a)) (JNumber (of_int b)) = Inr (map of_int [a..b])
      \<and> length (map rat_of_int [a..b]) = nat (b - a + 1))
   \<and> (\<not> Number_isInteger x \<or> \<not> Number_isInteger y \<longrightarrow>
        (\<exists>e. getPortRange pm x y = Inl e \<and> cls e = TypeErrorC))
   \<and> (a < minPort pm \<or> a > maxPort pm \<or> b < minPort pm \<or> b > maxPort pm \<or> a > b \<longrightarrow>
        (\<exists>e. getPortRange pm (JNumber (of_int a)) (JNumber (of_int b)) = Inl e
              \<and> cls e = RangeErrorC))"
proof (intro conjI impI)
  assume h: "minPort pm \<le> a \<and> a \<le> b \<and> b \<le> maxPort pm"
  then show "getPortRange pm (JNumber (of_int a)) (JNumber (of_int b)) = Inr (map of_int [a..b])"
    by (simp add: getPortRange_def isInteger_of_int Array_from_range)
  show "length (map rat_of_int [a..b]) = nat (b - a + 1)" by simp
next
  assume "\<not> Number_isInteger x \<or> \<not> Number_isInteger y"
  then show "\<exists>e. getPortRange pm x y = Inl e \<and> cls e = TypeErrorC"
    by (auto simp add: getPortRange_def new_TypeError_def)
next
  assume "a < minPort pm \<or> a > maxPort pm \<or> b < minPort pm \<or> b > maxPort pm \<or> a > b"
  then show "\<exists>e. getPortRange pm (JNumber (of_int a)) (JNumber (of_int b)) = Inl e
              \<and> cls e = RangeErrorC"
    by (auto simp add: getPortRange_def isInteger_of_int new_RangeError_def)
qed

text \<open>The cases of \<open>test.js\<close>: (1024, 1029), (1024.5, 1025), (70000, 80000) and (1029, 1024).\<close>

theorem getPortRange_spec_witness:
  "minPort portManager_init \<le> 1024 \<and> (1024::int) \<le> 1029 \<and> 1029 \<le> maxPort portManager_init
   \<and> getPortRange portManager_init (JNumber 1024) (JNumber 1029)
       = Inr [1024, 1025, 1026, 1027, 1028, 1029]
   \<and> \<not> Number_isInteger (JNumber (2049 / 2))
   \<and> (\<exists>e. getPortRange portManager_init (JNumber (2049 / 2)) (JNumber 1025) = Inl e
           \<and> cls e = TypeErrorC)
   \<and> 70000 > maxPort portManager_init
   \<and> (\<exists>e. getPortRange portManager_init (JNumber 70000) (JNumber 80000) = Inl e
           \<and> cls e = RangeErrorC)
   \<and> (1029::int) > 1024
   \<and> (\<exists>e. getPortRange portManager_init (JNumber 1029) (JNumber 1024) = Inl e
           \<and> cls e = RangeErrorC)"
proof -
  have b: "minPort portManager_init = 1024" "maxPort portManager_init = 65535"
    by (simp_all add: portManager_init_def)
  have u: "[1024..1029::int] = [1024, 1025, 1026, 1027, 1028, 1029]"
    by (simp add: upto.simps)
  have r1: "getPortRange portManager_init (JNumber 1024) (JNumber 1029)
       = Inr [1024, 1025, 1026, 1027, 1028, 1029]"
    using getPortRange_spec [of portManager_init 1024 1029, THEN conjunct1] b u by simp
  have r2: "\<exists>e. getPortRange portManager_init (JNumber (2049 / 2)) (JNumber 1025) = Inl e
           \<and> cls e = TypeErrorC"
    using getPortRange_spec [of portManager_init 0 0 "JNumber (2049 / 2)" "JNumber 1025",
        THEN conjunct2, THEN conjunct1] not_isInteger_half by blast
  have r3: "\<exists>e. getPortRange portManager_init (JNumber 70000) (JNumber 80000) = Inl e
           \<and> cls e = RangeErrorC"
    using getPortRange_spec [of portManager_init 70000 80000, THEN conjunct2, THEN conjunct2] b
    by simp
  have r4: "\<exists>e. getPortRange portManager_init (JNumber 1029) (JNumber 1024) = Inl e
           \<and> cls e = RangeErrorC"
    using getPortRange_spec [of portManager_init 1029 1024, THEN conjunct2, THEN conjunct2] b
    by simp
  show ?thesis
    using b r1 r2 r3 r4 not_isInteger_half by simp
qed

subsection \<open>The order of the fan-out\<close>












subsection \<open>The re-verification loop\<close>

lemma verifyPort_zero:
  "verifyPort w lg (with_port options 0) hosts
     = (reverify w options hosts lg 0, lg @ [(opt_host options, 0)])"
  by (simp add: reverify_def verifyPort_def with_port_def checkPortAvailability_def)

lemma reverify_Suc:
  "reverify w options hosts (lg @ [(opt_host options, 0)]) k = reverify w options hosts lg (Suc k)"
  by (simp add: reverify_def)

lemma still_lockedE:
  assumes "still_locked pm r"
  obtains q where "r = Some (Inr q)" and "has (locked pm) q"
  using assms by (auto simp: still_locked_def split: option.splits sum.splits)

lemma while_locked_step:
  assumes "has (locked pm) ap"
  shows "while_locked w pm options hosts 0 lg ap =
     (case reverify w options hosts lg 0 of
        None \<Rightarrow> None
      | Some (Inl e) \<Rightarrow> Some (Inl e, lg @ [(opt_host options, 0)])
      | Some (Inr q) \<Rightarrow> while_locked w pm options hosts 0 (lg @ [(opt_host options, 0)]) q)"
  using assms
  by (subst while_locked.simps) (simp add: verifyPort_zero split: option.splits sum.splits)

lemma while_locked_unlocked:
  assumes "\<not> has (locked pm) ap"
  shows "while_locked w pm options hosts p lg ap = Some (Inr ap, lg)"
  using assms by (subst while_locked.simps) simp

lemma while_locked_unroll:
  assumes "has (locked pm) ap" and "\<forall>j<k. still_locked pm (reverify w options hosts lg j)"
  shows "while_locked w pm options hosts 0 lg ap =
     (case reverify w options hosts lg k of
        None \<Rightarrow> None
      | Some (Inl e) \<Rightarrow> Some (Inl e, lg @ replicate (Suc k) (opt_host options, 0))
      | Some (Inr q) \<Rightarrow>
          while_locked w pm options hosts 0 (lg @ replicate (Suc k) (opt_host options, 0)) q)"
  using assms
proof (induction k arbitrary: lg ap)
  case 0
  then show ?case by (simp add: while_locked_step split: option.splits sum.splits)
next
  case (Suc k)
  from Suc.prems(2) have "still_locked pm (reverify w options hosts lg 0)" by blast
  then obtain q where q: "reverify w options hosts lg 0 = Some (Inr q)" "has (locked pm) q"
    by (rule still_lockedE)
  have later: "\<forall>j<k. still_locked pm (reverify w options hosts (lg @ [(opt_host options, 0)]) j)"
    using Suc.prems(2) by (simp add: reverify_Suc)
  have "while_locked w pm options hosts 0 lg ap
          = while_locked w pm options hosts 0 (lg @ [(opt_host options, 0)]) q"
    using Suc.prems(1) q(1) by (simp add: while_locked_step)
  also note Suc.IH [OF q(2) later]
  finally show ?case
    by (simp add: reverify_Suc split: option.splits sum.splits)
qed

lemma while_locked_diverges_aux:
  assumes "while_locked w pm options hosts p lg ap = Some r"
  shows "\<not> (p = 0 \<and> has (locked pm) ap \<and> (\<forall>k. still_locked pm (reverify w options hosts lg k)))"
proof (rule while_locked.raw_induct
    [where P = "\<lambda>w pm options hosts p lg ap r.
       \<not> (p = 0 \<and> has (locked pm) ap \<and> (\<forall>k. still_locked pm (reverify w options hosts lg k)))"])
  show "while_locked w pm options hosts p lg ap = Some r" by (fact assms)
next
  fix f :: "world \<Rightarrow> portManager \<Rightarrow> open_options \<Rightarrow> string option list \<Rightarrow> int \<Rightarrow> bind_log \<Rightarrow> int
              \<Rightarrow> ((js_error + int) \<times> bind_log) option"
  fix w pm options hosts p lg ap r
  assume IH: "\<And>w pm options hosts p lg ap r. f w pm options hosts p lg ap = Some r \<Longrightarrow>
     \<not> (p = 0 \<and> has (locked pm) ap \<and> (\<forall>k. still_locked pm (reverify w options hosts lg k)))"
  assume body: "(if has (locked pm) ap
      then if p \<noteq> 0 then Some (Inl (new_LockedPortError p), lg)
           else case verifyPort w lg (with_port options 0) hosts of
                (None, lg') \<Rightarrow> None
                | (Some (Inl error), lg') \<Rightarrow> Some (Inl error, lg')
                | (Some (Inr availablePort'), lg') \<Rightarrow> f w pm options hosts p lg' availablePort'
      else Some (Inr ap, lg)) = Some r"
  show "\<not> (p = 0 \<and> has (locked pm) ap \<and> (\<forall>k. still_locked pm (reverify w options hosts lg k)))"
  proof
    assume h: "p = 0 \<and> has (locked pm) ap \<and> (\<forall>k. still_locked pm (reverify w options hosts lg k))"
    then have "still_locked pm (reverify w options hosts lg 0)" by blast
    then obtain q where q: "reverify w options hosts lg 0 = Some (Inr q)" "has (locked pm) q"
      by (rule still_lockedE)
    have later: "\<forall>k. still_locked pm (reverify w options hosts (lg @ [(opt_host options, 0)]) k)"
      using h by (simp add: reverify_Suc)
    have "f w pm options hosts p (lg @ [(opt_host options, 0)]) q = Some r"
      using body h q(1) by (simp add: verifyPort_zero)
    from IH [OF this] h q(2) later show False by blast
  qed
qed

lemma while_locked_diverges:
  assumes "has (locked pm) ap" and "\<forall>k. still_locked pm (reverify w options hosts lg k)"
  shows "while_locked w pm options hosts 0 lg ap = None"
proof (cases "while_locked w pm options hosts 0 lg ap")
  case None
  then show ?thesis .
next
  case (Some r)
  from while_locked_diverges_aux [OF this] assms show ?thesis by blast
qed

lemma while_locked_ends:
  assumes "has (locked pm) ap" and "\<forall>j<k. still_locked pm (reverify w options hosts lg j)"
    and "reverify w options hosts lg k = Some r" and "\<not> still_locked pm (Some r)"
  shows "while_locked w pm options hosts 0 lg ap
           = Some (r, lg @ replicate (Suc k) (opt_host options, 0))"
  using while_locked_unroll [OF assms(1,2)] assms(3,4)
  by (cases r) (simp_all add: while_locked_unlocked still_locked_def)

lemma while_locked_Some:
  assumes "has (locked pm) ap"
    and "while_locked w pm options hosts 0 lg ap = Some (r, lg')"
  shows "\<exists>k. (\<forall>j<k. still_locked pm (reverify w options hosts lg j))
             \<and> reverify w options hosts lg k = Some r \<and> \<not> still_locked pm (Some r)
             \<and> lg' = lg @ replicate (Suc k) (opt_host options, 0)"
proof -
  have "\<exists>k. \<not> still_locked pm (reverify w options hosts lg k)"
    using while_locked_diverges [OF assms(1), of w options hosts lg] assms(2) by auto
  then obtain k where k: "\<not> still_locked pm (reverify w options hosts lg k)"
    and least: "\<forall>j<k. still_locked pm (reverify w options hosts lg j)"
    using exists_least_iff [of "\<lambda>k. \<not> still_locked pm (reverify w options hosts lg k)"] by auto
  note unroll = while_locked_unroll [OF assms(1) least]
  show ?thesis
  proof (cases "reverify w options hosts lg k")
    case None
    with unroll assms(2) show ?thesis by simp
  next
    case (Some r')
    with k have stop: "\<not> still_locked pm (Some r')" by simp
    from while_locked_ends [OF assms(1) least Some stop] assms(2)
    have "r' = r \<and> lg' = lg @ replicate (Suc k) (opt_host options, 0)" by simp
    with least Some stop show ?thesis by blast
  qed
qed

subsection \<open>A call that nothing interleaves with\<close>

lemma drive_Finished: "drive (Finished r, pm, lg) = Some (r, pm, lg)"
  by (subst drive.simps) simp

lemma drive_Suspended:
  "drive (Suspended t, pm, lg)
     = (case t_awaited t of None \<Rightarrow> None | Some r \<Rightarrow> drive (resume t r pm lg))"
  by (subst drive.simps) simp

lemma not_rethrows_LockedPortError: "\<not> rethrows (new_LockedPortError p)"
  by (simp add: rethrows_def new_LockedPortError_def)

lemma resume_awaited: "resume (t\<lparr>t_awaited := r\<rparr>) = resume t"
  by (auto simp add: resume_def next_port_def fun_eq_iff split: sum.splits prod.splits)

lemma resume_round:
  assumes "t_port t = 0" and "has (locked pm) ap"
  shows "drive (resume t (Inr ap) pm lg) =
     (case reverify (t_world t) (t_options t) (t_hosts t) lg 0 of
        None \<Rightarrow> None
      | Some r \<Rightarrow> drive (resume t r pm (lg @ [(opt_host (t_options t), 0)])))"
  using assms
  by (simp add: resume_def [of t "Inr ap"] verifyPort_zero drive_Suspended resume_awaited
      split: option.splits)

lemma drive_unroll:
  assumes "t_port t = 0" and "has (locked pm) ap"
    and "\<forall>j<k. still_locked pm (reverify (t_world t) (t_options t) (t_hosts t) lg j)"
  shows "drive (resume t (Inr ap) pm lg) =
     (case reverify (t_world t) (t_options t) (t_hosts t) lg k of
        None \<Rightarrow> None
      | Some r \<Rightarrow> drive (resume t r pm (lg @ replicate (Suc k) (opt_host (t_options t), 0))))"
  using assms(2,3)
proof (induction k arbitrary: lg ap)
  case 0
  then show ?case by (simp add: resume_round [OF assms(1)] split: option.splits)
next
  case (Suc k)
  from Suc.prems(2) have "still_locked pm (reverify (t_world t) (t_options t) (t_hosts t) lg 0)"
    by blast
  then obtain q where q: "reverify (t_world t) (t_options t) (t_hosts t) lg 0 = Some (Inr q)"
      "has (locked pm) q"
    by (rule still_lockedE)
  have later: "\<forall>j<k. still_locked pm
      (reverify (t_world t) (t_options t) (t_hosts t) (lg @ [(opt_host (t_options t), 0)]) j)"
    using Suc.prems(2) by (simp add: reverify_Suc)
  have "drive (resume t (Inr ap) pm lg)
          = drive (resume t (Inr q) pm (lg @ [(opt_host (t_options t), 0)]))"
    using Suc.prems(1) q(1) by (simp add: resume_round [OF assms(1)])
  also note Suc.IH [OF q(2) later]
  finally show ?case
    by (simp add: reverify_Suc split: option.splits)
qed

lemma resume_relocked:
  assumes "t_port t = 0" and "has (locked pm) ap"
  shows "resume t (Inr ap) pm lg
     = (Suspended (t\<lparr>t_awaited := reverify (t_world t) (t_options t) (t_hosts t) lg 0\<rparr>),
        pm, lg @ [(opt_host (t_options t), 0)])"
  using assms by (simp add: resume_def verifyPort_zero)

lemma drive_diverges_aux:
  assumes "drive x = Some y"
  shows "\<not> (\<exists>t pm lg ap. x = resume t (Inr ap) pm lg \<and> t_port t = 0 \<and> has (locked pm) ap
             \<and> (\<forall>k. still_locked pm (reverify (t_world t) (t_options t) (t_hosts t) lg k)))"
proof (rule drive.raw_induct
    [where P = "\<lambda>x y. \<not> (\<exists>t pm lg ap. x = resume t (Inr ap) pm lg \<and> t_port t = 0
        \<and> has (locked pm) ap
        \<and> (\<forall>k. still_locked pm (reverify (t_world t) (t_options t) (t_hosts t) lg k)))"])
  show "drive x = Some y" by (fact assms)
next
  fix f :: "progress \<times> portManager \<times> bind_log
              \<Rightarrow> ((js_error + int) \<times> portManager \<times> bind_log) option"
  fix x y
  assume IH: "\<And>x y. f x = Some y \<Longrightarrow>
     \<not> (\<exists>t pm lg ap. x = resume t (Inr ap) pm lg \<and> t_port t = 0 \<and> has (locked pm) ap
          \<and> (\<forall>k. still_locked pm (reverify (t_world t) (t_options t) (t_hosts t) lg k)))"
  assume body: "(case x of
        (Finished r, pm, lg) \<Rightarrow> Some (r, pm, lg)
      | (Suspended t, pm, lg) \<Rightarrow>
          (case t_awaited t of None \<Rightarrow> None | Some r \<Rightarrow> f (resume t r pm lg))) = Some y"
  show "\<not> (\<exists>t pm lg ap. x = resume t (Inr ap) pm lg \<and> t_port t = 0 \<and> has (locked pm) ap
          \<and> (\<forall>k. still_locked pm (reverify (t_world t) (t_options t) (t_hosts t) lg k)))"
  proof
    assume "\<exists>t pm lg ap. x = resume t (Inr ap) pm lg \<and> t_port t = 0 \<and> has (locked pm) ap
          \<and> (\<forall>k. still_locked pm (reverify (t_world t) (t_options t) (t_hosts t) lg k))"
    then obtain t pm lg ap where x: "x = resume t (Inr ap) pm lg" and p: "t_port t = 0"
      and l: "has (locked pm) ap"
      and all: "\<forall>k. still_locked pm (reverify (t_world t) (t_options t) (t_hosts t) lg k)"
      by blast
    from all have "still_locked pm (reverify (t_world t) (t_options t) (t_hosts t) lg 0)"
      by blast
    then obtain q where q: "reverify (t_world t) (t_options t) (t_hosts t) lg 0 = Some (Inr q)"
        "has (locked pm) q"
      by (rule still_lockedE)
    have later: "\<forall>k. still_locked pm
        (reverify (t_world t) (t_options t) (t_hosts t) (lg @ [(opt_host (t_options t), 0)]) k)"
      using all by (simp add: reverify_Suc)
    have "f (resume t (Inr q) pm (lg @ [(opt_host (t_options t), 0)])) = Some y"
      using body x q(1) by (simp add: resume_relocked [OF p l] resume_awaited)
    from IH [OF this] p q(2) later show False by blast
  qed
qed

lemma drive_diverges:
  assumes "t_port t = 0" and "has (locked pm) ap"
    and "\<forall>k. still_locked pm (reverify (t_world t) (t_options t) (t_hosts t) lg k)"
  shows "drive (resume t (Inr ap) pm lg) = None"
proof (cases "drive (resume t (Inr ap) pm lg)")
  case None
  then show ?thesis .
next
  case (Some y)
  from drive_diverges_aux [OF this] assms show ?thesis by blast
qed

lemma LockedPortError_fields:
  "code (new_LockedPortError p) = Some ''EPORTLOCKED''"
  "cls (new_LockedPortError p) = LockedPortErrorC"
  by (simp_all add: new_LockedPortError_def)

lemma resume_final:
  assumes K: "\<And>lg. drive (next_port t pm lg)
      = for_ports (t_world t) (t_options t) (t_hosts t) (t_exclude t) (t_portsToCheck t)
          pm lg (t_rest t)"
    and "\<not> still_locked pm (Some r)"
  shows "drive (resume t r pm lg) = after_loop t pm (Some (r, lg))"
  using assms(2)
  by (cases r) (simp_all add: resume_def after_loop_def still_locked_def drive_Finished K)

lemma loop_agree:
  assumes K: "\<And>lg. drive (next_port t pm lg)
      = for_ports (t_world t) (t_options t) (t_hosts t) (t_exclude t) (t_portsToCheck t)
          pm lg (t_rest t)"
  shows "drive (resume t (Inr ap) pm lg)
     = after_loop t pm (while_locked (t_world t) pm (t_options t) (t_hosts t) (t_port t) lg ap)"
proof (cases "has (locked pm) ap")
  case False
  then have "\<not> still_locked pm (Some (Inr ap))" by (simp add: still_locked_def)
  from resume_final [OF K this] False show ?thesis
    by (simp add: while_locked_unlocked)
next
  case locked: True
  show ?thesis
  proof (cases "t_port t = 0")
    case False
    with locked have "while_locked (t_world t) pm (t_options t) (t_hosts t) (t_port t) lg ap
        = Some (Inl (new_LockedPortError (t_port t)), lg)"
      by (subst while_locked.simps) simp
    with locked False show ?thesis
      by (simp add: resume_def after_loop_def not_rethrows_LockedPortError K)
  next
    case zero: True
    let ?v = "reverify (t_world t) (t_options t) (t_hosts t) lg"
    show ?thesis
    proof (cases "\<forall>k. still_locked pm (?v k)")
      case True
      from drive_diverges [OF zero locked True] while_locked_diverges [OF locked True] zero
      show ?thesis by (simp add: after_loop_def)
    next
      case False
      then obtain k where k: "\<not> still_locked pm (?v k)"
        and least: "\<forall>j<k. still_locked pm (?v j)"
        using exists_least_iff [of "\<lambda>k. \<not> still_locked pm (?v k)"] by auto
      note d = drive_unroll [OF zero locked least]
      note w = while_locked_unroll [OF locked least]
      show ?thesis
      proof (cases "?v k")
        case None
        with d w zero show ?thesis by (simp add: after_loop_def)
      next
        case (Some r)
        with k have stop: "\<not> still_locked pm (Some r)" by simp
        from d Some have "drive (resume t (Inr ap) pm lg)
            = drive (resume t r pm (lg @ replicate (Suc k) (opt_host (t_options t), 0)))"
          by simp
        also have "\<dots> = after_loop t pm
            (Some (r, lg @ replicate (Suc k) (opt_host (t_options t), 0)))"
          by (rule resume_final [OF K stop])
        also have "Some (r, lg @ replicate (Suc k) (opt_host (t_options t), 0))
            = while_locked (t_world t) pm (t_options t) (t_hosts t) 0 lg ap"
          using while_locked_ends [OF locked least Some stop] by simp
        finally show ?thesis using zero by simp
      qed
    qed
  qed
qed

lemma for_ports_after_loop:
  assumes "\<not> (p \<in> set excl \<or> has (locked pm) p)"
    and "verifyPort w lg (with_port options p) hosts = (Some (Inr ap), lg')"
  shows "for_ports w options hosts excl portsToCheck pm lg (p # ps)
     = after_loop \<lparr>t_world = w, t_options = options, t_hosts = hosts, t_exclude = excl,
                    t_portsToCheck = portsToCheck, t_port = p, t_rest = ps, t_awaited = r\<rparr>
         pm (while_locked w pm options hosts p lg' ap)"
  using assms
  by (auto simp add: try_port_def after_loop_def rethrows_def split: option.splits sum.splits)

lemma drive_scan:
  "drive (scan w options hosts excl portsToCheck pm lg ps)
     = for_ports w options hosts excl portsToCheck pm lg ps"
proof (induction ps arbitrary: lg)
  case Nil
  show ?case by (simp add: drive_Finished)
next
  case (Cons p ps)
  show ?case
  proof (cases "p \<in> set excl \<or> has (locked pm) p")
    case True
    then show ?thesis
      using Cons.IH [of lg]
      by (auto simp add: try_port_def not_rethrows_LockedPortError LockedPortError_fields
          Array_includes_def)
  next
    case False
    obtain r lg' where v: "verifyPort w lg (with_port options p) hosts = (r, lg')"
      by (cases "verifyPort w lg (with_port options p) hosts")
    let ?t = "\<lparr>t_world = w, t_options = options, t_hosts = hosts, t_exclude = excl,
               t_portsToCheck = portsToCheck, t_port = p, t_rest = ps, t_awaited = r\<rparr>"
    have K: "\<And>lg. drive (next_port ?t pm lg)
        = for_ports (t_world ?t) (t_options ?t) (t_hosts ?t) (t_exclude ?t) (t_portsToCheck ?t)
            pm lg (t_rest ?t)"
      by (simp add: next_port_def Cons.IH)
    have s: "scan w options hosts excl portsToCheck pm lg (p # ps) = (Suspended ?t, pm, lg')"
      using False v by simp
    show ?thesis
    proof (cases r)
      case None
      with False v s show ?thesis by (simp add: drive_Suspended try_port_def)
    next
      case (Some res)
      show ?thesis
      proof (cases res)
        case (Inl e)
        have "drive (resume ?t (Inl e) pm lg') = after_loop ?t pm (Some (Inl e, lg'))"
          by (rule resume_final [OF K]) (simp add: still_locked_def)
        with False v s Some Inl show ?thesis
          by (auto simp add: drive_Suspended try_port_def after_loop_def rethrows_def)
      next
        case (Inr ap)
        from loop_agree [OF K, of ap lg']
          for_ports_after_loop [OF False, of w lg options hosts ap lg' portsToCheck ps r]
          v s Some Inr
        show ?thesis by (simp add: drive_Suspended)
      qed
    qed
  qed
qed

text \<open>
  Resumed at once after each await, the call cut at its awaits is \<open>getOpenPort\<close>.
\<close>

lemma drive_start: "drive (start w options pm lg) = getOpenPort w options pm lg"
  by (simp add: start_def getOpenPort_def Let_def drive_scan)

lemma drive_resume:
  "drive (resume t (Inr ap) pm lg)
     = after_loop t pm (while_locked (t_world t) pm (t_options t) (t_hosts t) (t_port t) lg ap)"
  by (rule loop_agree) (simp add: next_port_def drive_scan)

subsection \<open>The re-verification loop of a call\<close>

text \<open>
  Claim C5, as the code has it. The loop has no bound on its passes. For the candidate
  0, whenever a verification settles: with a port that is in the lock table at that
  moment, the call starts a fresh ephemeral verification and waits again; with a port
  that is not, that port is reserved and returned; with a rejection, no port is obtained
  and the \<open>catch\<close> clause decides, throwing the error again or going on with the
  remaining candidates. In a call that nothing interleaves with, the loop therefore ends
  exactly at the first re-verification that rejects or gives a port that is not locked,
  all earlier ones having given locked ports, and does not end when there is none; the
  call then ends as lines 204 to 216 and the rest of the candidate loop make it.
\<close>

theorem reverify_loop_result:
  assumes "t_port t = 0"
  shows "(has (locked pm) q \<longrightarrow>
           resume t (Inr q) pm lg
             = (Suspended (t\<lparr>t_awaited := reverify (t_world t) (t_options t) (t_hosts t) lg 0\<rparr>),
                pm, lg @ [(opt_host (t_options t), 0)]))
       \<and> (\<not> has (locked pm) q \<longrightarrow>
           resume t (Inr q) pm lg
             = (Finished (Inr q), pm\<lparr>locked := (locked pm)(q \<mapsto> Date_now (t_world t))\<rparr>, lg))
       \<and> resume t (Inl e) pm lg
             = (if rethrows e then (Finished (Inl e), pm, lg) else next_port t pm lg)
       \<and> (has (locked pm) q \<longrightarrow>
           (while_locked (t_world t) pm (t_options t) (t_hosts t) 0 lg q = Some (r, lg')
            \<longleftrightarrow> (\<exists>k. (\<forall>j<k. still_locked pm
                              (reverify (t_world t) (t_options t) (t_hosts t) lg j))
                     \<and> reverify (t_world t) (t_options t) (t_hosts t) lg k = Some r
                     \<and> \<not> still_locked pm (Some r)
                     \<and> lg' = lg @ replicate (Suc k) (opt_host (t_options t), 0))))
       \<and> (has (locked pm) q
            \<and> (\<forall>k. still_locked pm (reverify (t_world t) (t_options t) (t_hosts t) lg k))
            \<longrightarrow> while_locked (t_world t) pm (t_options t) (t_hosts t) 0 lg q = None)
       \<and> drive (resume t (Inr q) pm lg)
             = after_loop t pm (while_locked (t_world t) pm (t_options t) (t_hosts t) 0 lg q)"
proof (intro conjI impI)
  assume "has (locked pm) q"
  then show "resume t (Inr q) pm lg
      = (Suspended (t\<lparr>t_awaited := reverify (t_world t) (t_options t) (t_hosts t) lg 0\<rparr>),
         pm, lg @ [(opt_host (t_options t), 0)])"
    by (rule resume_relocked [OF assms])
next
  assume "\<not> has (locked pm) q"
  then show "resume t (Inr q) pm lg
      = (Finished (Inr q), pm\<lparr>locked := (locked pm)(q \<mapsto> Date_now (t_world t))\<rparr>, lg)"
    by (simp add: resume_def)
next
  show "resume t (Inl e) pm lg
      = (if rethrows e then (Finished (Inl e), pm, lg) else next_port t pm lg)"
    by (simp add: resume_def)
next
  assume l: "has (locked pm) q"
  show "while_locked (t_world t) pm (t_options t) (t_hosts t) 0 lg q = Some (r, lg')
        \<longleftrightarrow> (\<exists>k. (\<forall>j<k. still_locked pm (reverify (t_world t) (t_options t) (t_hosts t) lg j))
                 \<and> reverify (t_world t) (t_options t) (t_hosts t) lg k = Some r
                 \<and> \<not> still_locked pm (Some r)
                 \<and> lg' = lg @ replicate (Suc k) (opt_host (t_options t), 0))"
    using while_locked_ends [OF l] while_locked_Some [OF l] by blast
next
  assume "has (locked pm) q
          \<and> (\<forall>k. still_locked pm (reverify (t_world t) (t_options t) (t_hosts t) lg k))"
  then show "while_locked (t_world t) pm (t_options t) (t_hosts t) 0 lg q = None"
    using while_locked_diverges by blast
next
  show "drive (resume t (Inr q) pm lg)
      = after_loop t pm (while_locked (t_world t) pm (t_options t) (t_hosts t) 0 lg q)"
    using drive_resume [of t q pm lg] assms by simp
qed

lemma reverify_os_world: "reverify (os_world 40000) no_options hosts3 lg k = Some (Inr 40000)"
  by (simp add: reverify_def verifyPort_def with_port_def checkPortAvailability_def os_world_def)

text \<open>
  With 40000 locked: a verification that gives 40000 makes the call wait for another
  one; one that gives 40001 ends it with 40001 reserved; in \<open>retry_world\<close> the call
  left to run ends so after two re-verifications; in a world that gives 40000 every time
  the loop left to run does not end.
\<close>

theorem reverify_loop_result_witness:
  "t_port (ephemeral_task retry_world) = 0
   \<and> has (locked locked_40000) 40000
   \<and> resume (ephemeral_task retry_world) (Inr 40000) locked_40000 [(None, 0)]
       = (Suspended (ephemeral_task retry_world), locked_40000, [(None, 0), (None, 0)])
   \<and> \<not> has (locked locked_40000) 40001
   \<and> resume (ephemeral_task retry_world) (Inr 40001) locked_40000 [(None, 0), (None, 0), (None, 0)]
       = (Finished (Inr 40001),
          locked_40000\<lparr>locked := (locked locked_40000)(40001 \<mapsto> 1000)\<rparr>,
          [(None, 0), (None, 0), (None, 0)])
   \<and> while_locked retry_world locked_40000 no_options hosts3 0 [(None, 0)] 40000
       = Some (Inr 40001, [(None, 0), (None, 0), (None, 0)])
   \<and> drive (resume (ephemeral_task retry_world) (Inr 40000) locked_40000 [(None, 0)])
       = Some (Inr 40001, locked_40000\<lparr>locked := (locked locked_40000)(40001 \<mapsto> 1000)\<rparr>,
               [(None, 0), (None, 0), (None, 0)])
   \<and> while_locked (os_world 40000) locked_40000 no_options hosts3 0 [(None, 0)] 40000 = None"
proof -
  let ?t = "ephemeral_task retry_world"
  have p: "t_port ?t = 0" by (simp add: ephemeral_task_def)
  have p': "t_port (ephemeral_task (os_world 40000)) = 0" by (simp add: ephemeral_task_def)
  have f: "t_world ?t = retry_world" "t_options ?t = no_options" "t_hosts ?t = hosts3"
    "t_world (ephemeral_task (os_world 40000)) = os_world 40000"
    "t_options (ephemeral_task (os_world 40000)) = no_options"
    "t_hosts (ephemeral_task (os_world 40000)) = hosts3"
    "opt_host no_options = None"
    by (simp_all add: ephemeral_task_def no_options_def)
  have dn: "Date_now retry_world = 1000" by (simp add: retry_world_def)
  have l: "has (locked locked_40000) 40000"
    by (simp add: locked_40000_def has_def)
  have free: "\<not> has (locked locked_40000) 40001"
    by (simp add: locked_40000_def has_def)
  have r0: "reverify retry_world no_options hosts3 [(None, 0)] 0 = Some (Inr 40000)"
    by (simp add: reverify_def verifyPort_def with_port_def checkPortAvailability_def
        retry_world_def)
  have r1: "reverify retry_world no_options hosts3 [(None, 0)] 1 = Some (Inr 40001)"
    by (simp add: reverify_def verifyPort_def with_port_def checkPortAvailability_def
        retry_world_def no_options_def)
  have stop: "\<not> still_locked locked_40000 (Some (Inr 40001))"
    using free by (simp add: still_locked_def)
  have before: "\<forall>j<1. still_locked locked_40000
                  (reverify retry_world no_options hosts3 [(None, 0)] j)"
    using r0 l by (simp add: still_locked_def)
  have always: "\<forall>k. still_locked locked_40000
                  (reverify (os_world 40000) no_options hosts3 [(None, 0)] k)"
    using l by (simp add: reverify_os_world still_locked_def)
  have same: "?t\<lparr>t_awaited := Some (Inr 40000)\<rparr> = ?t"
    by (simp add: ephemeral_task_def)
  note th = reverify_loop_result [OF p]
  have a: "resume ?t (Inr 40000) locked_40000 [(None, 0)]
       = (Suspended ?t, locked_40000, [(None, 0), (None, 0)])"
    using th [of locked_40000 40000 "[(None, 0)]", THEN conjunct1] l r0
    by (simp add: f same)
  have b: "resume ?t (Inr 40001) locked_40000 [(None, 0), (None, 0), (None, 0)]
       = (Finished (Inr 40001),
          locked_40000\<lparr>locked := (locked locked_40000)(40001 \<mapsto> 1000)\<rparr>,
          [(None, 0), (None, 0), (None, 0)])"
    using th [of locked_40000 40001 "[(None, 0), (None, 0), (None, 0)]",
        THEN conjunct2, THEN conjunct1] free
    by (simp add: f dn)
  have "\<exists>k. (\<forall>j<k. still_locked locked_40000 (reverify retry_world no_options hosts3 [(None, 0)] j))
           \<and> reverify retry_world no_options hosts3 [(None, 0)] k = Some (Inr 40001)
           \<and> \<not> still_locked locked_40000 (Some (Inr 40001))
           \<and> [(None, 0), (None, 0), (None, 0)] = [(None, 0)] @ replicate (Suc k) (None, 0)"
    using before r1 stop by (intro exI [of _ 1]) simp
  then have c: "while_locked retry_world locked_40000 no_options hosts3 0 [(None, 0)] 40000
       = Some (Inr 40001, [(None, 0), (None, 0), (None, 0)])"
    using th [where pm = locked_40000 and q = 40000 and lg = "[(None, 0)]" and r = "Inr 40001"
          and lg' = "[(None, 0), (None, 0), (None, 0)]",
        THEN conjunct2, THEN conjunct2, THEN conjunct2, THEN conjunct1] l
    by (simp add: f)
  have d: "drive (resume ?t (Inr 40000) locked_40000 [(None, 0)])
       = Some (Inr 40001, locked_40000\<lparr>locked := (locked locked_40000)(40001 \<mapsto> 1000)\<rparr>,
               [(None, 0), (None, 0), (None, 0)])"
    using th [of locked_40000 40000 "[(None, 0)]",
        THEN conjunct2, THEN conjunct2, THEN conjunct2, THEN conjunct2, THEN conjunct2] c
    by (simp add: f after_loop_def dn)
  have e: "while_locked (os_world 40000) locked_40000 no_options hosts3 0 [(None, 0)] 40000 = None"
    using reverify_loop_result [OF p', of locked_40000 40000 "[(None, 0)]",
        THEN conjunct2, THEN conjunct2, THEN conjunct2, THEN conjunct2, THEN conjunct1]
      l always
    by (simp add: f)
  show ?thesis using p l a free b c d e by (intro conjI)
qed

text \<open>
  Claim C5 as stated fails: with 40000 locked, in a world whose first socket is bound to
  40000 and whose second socket never listens, the loop ends after one pass with the
  timeout error and the call rejects. No unlocked port is obtained.
\<close>

theorem reverify_loop_ends_without_port:
  "has (locked locked_40000) 40000
   \<and> getOpenPort stalled_world no_options locked_40000 []
       = Some (Inl (new_Error ''Port check timed out after 1000ms''),
               arm_cleanupTimer locked_40000, [(None, 0), (None, 0)])"
  by (simp add: getOpenPort_def createPorts_def createHosts_eth0 stalled_world_def
      no_options_def new_Set_Nil try_port_def locked_arm locked_40000_def has_def
      verifyPort_def with_port_def checkPortAvailability_def portManager_init_def
      while_locked.simps timeoutMs_def show_int_1000 new_Error_def Array_includes_def)

subsection \<open>The sweep timer\<close>

lemma arm_cleanupTimer_armed: "cleanupTimer (arm_cleanupTimer pm) \<noteq> None"
  by (simp add: arm_cleanupTimer_def Let_def)

lemma clearLockedPorts_timer: "cleanupTimer (clearLockedPorts pm) = None"
  by (simp add: clearLockedPorts_def Let_def)

lemma scan_timer:
  "scan w options hosts excl portsToCheck pm lg ps = (x, pm', lg') \<Longrightarrow>
     cleanupTimer pm' = cleanupTimer pm"
  by (induction ps) (auto split: if_splits prod.splits)

lemma resume_timer:
  "resume t r pm lg = (x, pm', lg') \<Longrightarrow> cleanupTimer pm' = cleanupTimer pm"
  by (auto simp add: resume_def next_port_def split: sum.splits if_splits prod.splits
      dest: scan_timer)

lemma start_armed:
  "start w options pm lg = (x, pm', lg') \<Longrightarrow> cleanupTimer pm' \<noteq> None"
  unfolding start_def Let_def
  by (drule scan_timer) (simp add: arm_cleanupTimer_armed)

lemma manager_advance: "manager (advance s (x, pm, lg)) = pm"
  by (simp add: advance_def split: progress.splits sum.splits)

lemma step_timer:
  assumes "step operation s = Some s'"
  shows "(cleanupTimer (manager s') \<noteq> None)
           = called_since_clear (cleanupTimer (manager s) \<noteq> None) [operation]"
proof (cases operation)
  case (Call w options)
  obtain x pm' lg' where st: "start w options (manager s) (sockets s) = (x, pm', lg')"
    by (cases "start w options (manager s) (sockets s)")
  with assms Call have "manager s' = pm'" by (auto simp add: manager_advance)
  with start_armed [OF st] Call show ?thesis by simp
next
  case (Settle i)
  with assms obtain r where r: "t_awaited (pending s ! i) = Some r"
    and s': "s' = advance (s\<lparr>pending := take i (pending s) @ drop (Suc i) (pending s)\<rparr>)
                    (resume (pending s ! i) r (manager s) (sockets s))"
    by (auto split: if_splits option.splits)
  obtain x pm' lg' where re: "resume (pending s ! i) r (manager s) (sockets s) = (x, pm', lg')"
    by (cases "resume (pending s ! i) r (manager s) (sockets s)")
  with s' have "manager s' = pm'" by (simp add: manager_advance)
  with resume_timer [OF re] Settle show ?thesis by simp
next
  case ClearLockedPorts
  with assms show ?thesis by (auto simp add: clearLockedPorts_timer)
next
  case (Sweep now)
  with assms show ?thesis by (auto simp add: cleanupExpiredPorts_def split: if_splits)
next
  case (UserLock p t)
  with assms show ?thesis by auto
qed

lemma called_since_clear_Cons:
  "called_since_clear b (operation # rest)
     = called_since_clear (called_since_clear b [operation]) rest"
  by (cases operation) simp_all

lemma run_timer:
  "run ops s = Some s' \<Longrightarrow>
     (cleanupTimer (manager s') \<noteq> None)
       = called_since_clear (cleanupTimer (manager s) \<noteq> None) ops"
proof (induction ops arbitrary: s)
  case Nil
  then show ?case by simp
next
  case (Cons operation rest)
  then obtain s1 where s1: "step operation s = Some s1" and rest: "run rest s1 = Some s'"
    by (auto split: option.splits)
  from Cons.IH [OF rest] step_timer [OF s1] show ?case
    by (simp only: called_since_clear_Cons [of _ operation rest])
qed

text \<open>
  Claim C3, as the code has it. After any history from the initial state, the timer
  handle is present exactly when \<open>getOpenPort\<close> has been called since the start or the
  last \<open>clearLockedPorts\<close>, whether or not a call has reserved a port: the timer is
  armed at the start of the call (lines 168 to 176) and only \<open>clearLockedPorts\<close>
  removes it. It is absent initially and after \<open>clearLockedPorts\<close>.
\<close>

theorem cleanupTimer_iff_called:
  assumes "run ops initial = Some s"
  shows "(cleanupTimer (manager s) \<noteq> None) = called_since_clear False ops
         \<and> cleanupTimer (manager initial) = None
         \<and> cleanupTimer (clearLockedPorts (manager s)) = None"
  using run_timer [OF assms]
  by (simp add: initial_def portManager_init_def clearLockedPorts_timer)

lemmas history_defs = start_def new_Set_def Set_add_def createPorts_def createHosts_eth0
  arm_cleanupTimer_def verifyPort_def with_port_def has_def truthy_host_def
  checkPortAvailability_def advance_def resume_def next_port_def initial_def hosts3_def
  portManager_init_def os_world_def no_options_def clearLockedPorts_def exhausted_def
  rethrows_def Array_includes_def new_LockedPortError_def Let_def

text \<open>
  Two histories: one call of \<open>getOpenPort()\<close> whose verification settles, which
  reserves 40000 and leaves the timer armed; and the same followed by
  \<open>clearLockedPorts()\<close>, which leaves no timer.
\<close>

theorem cleanupTimer_iff_called_witness:
  "run [Call (os_world 40000) no_options, Settle 0] initial
     = Some \<lparr>manager = portManager_init\<lparr>locked := [40000 \<mapsto> 1000],
                 cleanupTimer := Some \<lparr>delay = 15000, has_ref = False\<rparr>\<rparr>,
             sockets = [(None, 0)], pending = [], reserved = True\<rparr>
   \<and> called_since_clear False [Call (os_world 40000) no_options, Settle 0]
   \<and> run [Call (os_world 40000) no_options, Settle 0, ClearLockedPorts] initial
     = Some \<lparr>manager = portManager_init, sockets = [(None, 0)], pending = [], reserved = False\<rparr>
   \<and> \<not> called_since_clear False [Call (os_world 40000) no_options, Settle 0, ClearLockedPorts]"
proof -
  have r1: "run [Call (os_world 40000) no_options, Settle 0] initial
     = Some \<lparr>manager = portManager_init\<lparr>locked := [40000 \<mapsto> 1000],
                 cleanupTimer := Some \<lparr>delay = 15000, has_ref = False\<rparr>\<rparr>,
             sockets = [(None, 0)], pending = [], reserved = True\<rparr>"
    by (simp add: history_defs)
  have r2: "run [Call (os_world 40000) no_options, Settle 0, ClearLockedPorts] initial
     = Some \<lparr>manager = portManager_init, sockets = [(None, 0)], pending = [], reserved = False\<rparr>"
    by (simp add: history_defs)
  have c1: "called_since_clear False [Call (os_world 40000) no_options, Settle 0]"
    using cleanupTimer_iff_called [OF r1, THEN conjunct1] by simp
  have c2: "\<not> called_since_clear False
                [Call (os_world 40000) no_options, Settle 0, ClearLockedPorts]"
    using cleanupTimer_iff_called [OF r2, THEN conjunct1] by (simp add: portManager_init_def)
  show ?thesis using r1 r2 c1 c2 by (intro conjI)
qed

text \<open>
  Claim C3 as stated fails: after the single call \<open>getOpenPort({ port: [] })\<close>, which
  rejects without reserving anything, the timer is armed.
\<close>

theorem cleanupTimer_without_reservation:
  "run [Call (os_world 40000) (no_options\<lparr>opt_port := Array []\<rparr>)] initial
     = Some \<lparr>manager = portManager_init\<lparr>cleanupTimer := Some \<lparr>delay = 15000, has_ref = False\<rparr>\<rparr>,
             sockets = [], pending = [], reserved = False\<rparr>
   \<and> cleanupTimer (portManager_init\<lparr>cleanupTimer := Some \<lparr>delay = 15000, has_ref = False\<rparr>\<rparr>)
       \<noteq> None"
  by (simp add: history_defs)

text \<open>
  Two histories with interleaving. When \<open>clearLockedPorts()\<close> runs while a call waits
  for its verification, the call then reserves its port with no timer armed. When the
  sweep removes the lock on 40000 while a call goes round the re-verification loop, the
  call reserves 40000 at its next pass.
\<close>

lemma clear_during_call:
  "run [Call (os_world 40000) no_options, ClearLockedPorts, Settle 0] initial
     = Some \<lparr>manager = portManager_init\<lparr>locked := [40000 \<mapsto> 1000]\<rparr>,
             sockets = [(None, 0)], pending = [], reserved = True\<rparr>
   \<and> cleanupTimer (portManager_init\<lparr>locked := [40000 \<mapsto> 1000]\<rparr>) = None"
  by (simp add: history_defs)

lemma sweep_ends_the_loop:
  "run [UserLock 40000 0, Call (os_world 40000) no_options, Settle 0, Settle 0,
        Sweep 20000, Settle 0] initial
     = Some \<lparr>manager = portManager_init\<lparr>locked := [40000 \<mapsto> 1000],
                 cleanupTimer := Some \<lparr>delay = 15000, has_ref = False\<rparr>\<rparr>,
             sockets = [(None, 0), (None, 0), (None, 0)], pending = [], reserved = True\<rparr>"
  by (simp add: history_defs cleanupExpiredPorts_def fun_eq_iff)

end
